theory Spec2Isabelle
  imports Complex_Main "HOL-Library.Log_Nat"
begin

section \<open>Data model\<close>

text \<open>
  The ride-sharing simulation of \<^verbatim>\<open>location.py\<close>, \<^verbatim>\<open>rider.py\<close>, \<^verbatim>\<open>driver.py\<close>,
  \<^verbatim>\<open>dispatcher.py\<close>, \<^verbatim>\<open>event.py\<close> and \<^verbatim>\<open>simulation.py\<close>.

  Python objects are mutable and shared: the dispatcher's lists and the events hold
  references to the same \<^verbatim>\<open>Driver\<close> and \<^verbatim>\<open>Rider\<close> objects. A reference is a
  natural number, and the objects live in two stores (one per class) that every
  operation takes and returns. Python integers are unbounded, hence \<open>int\<close>.
\<close>

record Location =
  row :: int
  col :: int

text \<open>
  The three status constants of \<^verbatim>\<open>rider.py\<close> (\<^verbatim>\<open>"waiting"\<close>, \<^verbatim>\<open>"cancelled"\<close>,
  \<^verbatim>\<open>"satisfied"\<close>); no other value is ever stored in \<^verbatim>\<open>Rider.status\<close>.
\<close>

datatype rider_status = WAITING | CANCELLED | SATISFIED

record Rider =
  rider_id :: string
  patience :: int
  origin :: Location
  dest :: Location
  status :: rider_status

text \<open>
  \<^verbatim>\<open>Driver.location\<close> is declared as a \<^verbatim>\<open>Location\<close>, but \<^verbatim>\<open>end_drive\<close> and
  \<^verbatim>\<open>end_ride\<close> assign \<^verbatim>\<open>self.destination\<close> to it, which may be \<^verbatim>\<open>None\<close>; the
  field is therefore optional here as well.
\<close>

record Driver =
  driver_id :: string
  location :: "Location option"
  speed :: int
  is_idle :: bool
  destination :: "Location option"

datatype error = ZeroDivisionError | OverflowError | AttributeError | ValueError

definition Rider_init :: "string \<Rightarrow> int \<Rightarrow> Location \<Rightarrow> Location \<Rightarrow> Rider" where
  "Rider_init identifier pat orig dst =
     \<lparr>rider_id = identifier, patience = pat, origin = orig, dest = dst, status = WAITING\<rparr>"

definition Driver_init :: "string \<Rightarrow> Location \<Rightarrow> int \<Rightarrow> Driver" where
  "Driver_init identifier loc spd =
     \<lparr>driver_id = identifier, location = Some loc, speed = spd, is_idle = True,
      destination = None\<rparr>"

section \<open>Locations and travel time\<close>

definition manhattan_distance :: "Location \<Rightarrow> Location \<Rightarrow> int" where
  "manhattan_distance orig dst = \<bar>row orig - row dst\<bar> + \<bar>col orig - col dst\<bar>"

text \<open>
  Rounding to the nearest integer, a value exactly halfway between two integers going
  to the even one.
\<close>

definition round_half_even :: "rat \<Rightarrow> int" where
  "round_half_even x =
     (let f = \<lfloor>x\<rfloor> in
      if x - of_int f < 1 / 2 then f
      else if 1 / 2 < x - of_int f then f + 1
      else if even f then f else f + 1)"

text \<open>
  Python floats are IEEE 754 binary64 numbers: 53 significant bits, normal numbers
  from \<open>2 powi - 1022\<close> on, finite values below \<open>2 ^ 1024\<close>. A float is the rational
  number it denotes. \<open>binade x\<close> is the exponent \<open>e\<close> with
  \<open>2 powi e \<le> \<bar>x\<bar> < 2 powi (e + 1)\<close>, and \<open>- 1022\<close> for the numbers below the normal
  ones, so that the floats around \<open>x\<close> are the multiples of \<open>2 powi (e - 52)\<close>; it is
  computed from the bit length of the integer part of \<open>\<bar>x\<bar>\<close>, or of its reciprocal.
  \<open>float_round x\<close> is the float nearest to \<open>x\<close>, the one with the even significand
  when two are equally near (a result of \<open>2 ^ 1024\<close> or more, which is no float, is
  left to the caller).
\<close>

definition binade :: "rat \<Rightarrow> int" where
  "binade x =
     (if 1 \<le> \<bar>x\<bar> then bitlen \<lfloor>\<bar>x\<bar>\<rfloor> - 1
      else max (- 1022) (- bitlen (\<lceil>1 / \<bar>x\<bar>\<rceil> - 1)))"

definition float_round :: "rat \<Rightarrow> rat" where
  "float_round x =
     (if x = 0 then 0
      else of_int (round_half_even (x / 2 powi (binade x - 52))) * 2 powi (binade x - 52))"

text \<open>
  The division \<^verbatim>\<open>a / b\<close> of two Python integers: ZeroDivisionError for \<^verbatim>\<open>b == 0\<close>,
  otherwise the float nearest to the exact quotient, and OverflowError (\<^verbatim>\<open>integer
  division result too large for a float\<close>) when that is no finite float.
\<close>

definition true_divide :: "int \<Rightarrow> int \<Rightarrow> error + rat" where
  "true_divide a b =
     (if b = 0 then Inl ZeroDivisionError
      else if 2 ^ 1024 \<le> \<bar>float_round (of_int a / of_int b)\<bar> then Inl OverflowError
      else Inr (float_round (of_int a / of_int b)))"

text \<open>
  Python's \<^verbatim>\<open>round\<close> on one float: the nearest integer, halves to the even one, as
  an unbounded integer.
\<close>

definition py_round :: "rat \<Rightarrow> int" where
  "py_round x = round_half_even x"

text \<open>
  \<^verbatim>\<open>manhattan_distance\<close> reads \<^verbatim>\<open>origin.row\<close>, an AttributeError when the driver's
  location is \<^verbatim>\<open>None\<close>; the division then raises as above.
\<close>

definition get_travel_time :: "Driver \<Rightarrow> Location \<Rightarrow> error + int" where
  "get_travel_time self dst =
     (case location self of
        None \<Rightarrow> Inl AttributeError
      | Some loc \<Rightarrow>
          (case true_divide (manhattan_distance loc dst) (speed self) of
             Inl e \<Rightarrow> Inl e
           | Inr x \<Rightarrow> Inr (py_round x)))"

section \<open>Driver operations\<close>

text \<open>
  Each method returns the updated object; the two that end in a call of
  \<^verbatim>\<open>get_travel_time\<close> also return its result, and keep their assignments when that
  call raises.
\<close>

definition start_drive :: "Driver \<Rightarrow> Location \<Rightarrow> Driver \<times> (error + int)" where
  "start_drive self loc =
     (let self' = self\<lparr>destination := Some loc, is_idle := False\<rparr>
      in (self', get_travel_time self' loc))"

definition end_drive :: "Driver \<Rightarrow> Driver" where
  "end_drive self = self\<lparr>location := destination self, destination := None, is_idle := True\<rparr>"

definition start_ride :: "Driver \<Rightarrow> Rider \<Rightarrow> Driver \<times> (error + int)" where
  "start_ride self rider =
     (let self' = self\<lparr>destination := Some (dest rider), location := Some (origin rider),
                       is_idle := False\<rparr>
      in (self', get_travel_time self' (dest rider)))"

definition end_ride :: "Driver \<Rightarrow> Driver" where
  "end_ride self = self\<lparr>location := destination self, destination := None, is_idle := True\<rparr>"

section \<open>The monitor\<close>

text \<open>
  Modelled from the spec: \<^verbatim>\<open>monitor.py\<close> is not part of the sources. The monitor
  receives \<^verbatim>\<open>notify(timestamp, actorKind, activity, actorId, location)\<close> calls; it is
  the list of the calls received, in order. Its \<^verbatim>\<open>report\<close> is a parameter of
  \<open>run\<close> below.
\<close>

datatype actor = RIDER | DRIVER

datatype activity = REQUEST | CANCEL | PICKUP | DROPOFF

type_synonym notification = "int \<times> actor \<times> activity \<times> string \<times> Location option"

section \<open>The dispatcher\<close>

text \<open>
  The dispatcher holds references: \<^verbatim>\<open>_drivers\<close>, the registered drivers in the order
  of their registration, and \<^verbatim>\<open>_waiting_rider\<close>, the queue of waiting riders.
\<close>

record Dispatcher =
  drivers :: "nat list"
  waiting_rider :: "nat list"

definition Dispatcher_init :: Dispatcher where
  "Dispatcher_init = \<lparr>drivers = [], waiting_rider = []\<rparr>"

text \<open>
  The state that the executions of events share: the two stores, the dispatcher and
  the monitor's log.
\<close>

record world =
  driver_heap :: "nat \<Rightarrow> Driver"
  rider_heap :: "nat \<Rightarrow> Rider"
  dispatcher :: Dispatcher
  monitor :: "notification list"

text \<open>
  Modelled from the spec: \<^verbatim>\<open>Monitor.notify\<close> (\<^verbatim>\<open>monitor.py\<close> is not part of the
  sources) records the call at the end of the monitor's log.
\<close>

definition notify ::
  "int \<Rightarrow> actor \<Rightarrow> activity \<Rightarrow> string \<Rightarrow> Location option \<Rightarrow> world \<Rightarrow> world" where
  "notify t a k ident loc w = w\<lparr>monitor := monitor w @ [(t, a, k, ident, loc)]\<rparr>"

text \<open>Assignments to an object in a store, and to the two lists of the dispatcher.\<close>

definition set_driver :: "nat \<Rightarrow> Driver \<Rightarrow> world \<Rightarrow> world" where
  "set_driver d v w = w\<lparr>driver_heap := (driver_heap w)(d := v)\<rparr>"

definition set_rider :: "nat \<Rightarrow> Rider \<Rightarrow> world \<Rightarrow> world" where
  "set_rider r v w = w\<lparr>rider_heap := (rider_heap w)(r := v)\<rparr>"

definition set_waiting :: "nat list \<Rightarrow> world \<Rightarrow> world" where
  "set_waiting q w = w\<lparr>dispatcher := (dispatcher w)\<lparr>waiting_rider := q\<rparr>\<rparr>"

definition set_drivers :: "nat list \<Rightarrow> world \<Rightarrow> world" where
  "set_drivers ds w = w\<lparr>dispatcher := (dispatcher w)\<lparr>drivers := ds\<rparr>\<rparr>"

text \<open>
  The loop of \<^verbatim>\<open>request_driver\<close> over \<^verbatim>\<open>self._drivers\<close>, with \<^verbatim>\<open>temp\<close> as the
  accumulator. The travel time of every registered driver is computed, idle or not,
  so the scan raises as soon as \<^verbatim>\<open>get_travel_time\<close> raises on one of them.
\<close>

fun scan_drivers ::
  "(nat \<Rightarrow> Driver) \<Rightarrow> Location \<Rightarrow> nat list \<Rightarrow> nat option \<Rightarrow> error + nat option" where
  "scan_drivers h orig [] temp = Inr temp"
| "scan_drivers h orig (driver # rest) temp =
     (case get_travel_time (h driver) orig of
        Inl e \<Rightarrow> Inl e
      | Inr time \<Rightarrow>
          if is_idle (h driver) then
            (let temp' = (case temp of None \<Rightarrow> driver | Some t \<Rightarrow> t) in
             case get_travel_time (h temp') orig of
               Inl e \<Rightarrow> Inl e
             | Inr best_time \<Rightarrow>
                 scan_drivers h orig rest (Some (if time < best_time then driver else temp')))
          else scan_drivers h orig rest temp)"

definition request_driver :: "nat \<Rightarrow> world \<Rightarrow> world \<times> (error + nat option)" where
  "request_driver rider w =
     (if drivers (dispatcher w) = [] then
        (set_waiting (waiting_rider (dispatcher w) @ [rider]) w, Inr None)
      else
        case scan_drivers (driver_heap w) (origin (rider_heap w rider))
               (drivers (dispatcher w)) None of
          Inl e \<Rightarrow> (w, Inl e)
        | Inr None \<Rightarrow> (set_waiting (waiting_rider (dispatcher w) @ [rider]) w, Inr None)
        | Inr (Some temp) \<Rightarrow>
            (set_driver temp
               ((driver_heap w temp)\<lparr>is_idle := False,
                                      destination := Some (origin (rider_heap w rider))\<rparr>) w,
             Inr (Some temp)))"

text \<open>
  \<^verbatim>\<open>list.remove(x)\<close> deletes the first element equal to \<^verbatim>\<open>x\<close> and raises ValueError
  when there is none. Riders compare by \<^verbatim>\<open>Rider.__eq__\<close>, that is by id (an object
  is also equal to itself, and then the ids agree as well).
\<close>

fun list_remove :: "(nat \<Rightarrow> Rider) \<Rightarrow> nat \<Rightarrow> nat list \<Rightarrow> error + nat list" where
  "list_remove h x [] = Inl ValueError"
| "list_remove h x (y # ys) =
     (if rider_id (h y) = rider_id (h x) then Inr ys
      else case list_remove h x ys of Inl e \<Rightarrow> Inl e | Inr ys' \<Rightarrow> Inr (y # ys'))"

text \<open>
  The loop of \<^verbatim>\<open>request_rider\<close> over \<^verbatim>\<open>self._drivers\<close> that clears \<^verbatim>\<open>truth\<close> when a
  registered driver has the id of the requesting one.
\<close>

fun check_new :: "(nat \<Rightarrow> Driver) \<Rightarrow> nat \<Rightarrow> nat list \<Rightarrow> bool \<Rightarrow> bool" where
  "check_new h driver [] truth = truth"
| "check_new h driver (ubers # rest) truth =
     check_new h driver rest
       (if driver_id (h driver) = driver_id (h ubers) then False else truth)"

definition register_driver :: "nat \<Rightarrow> world \<Rightarrow> world" where
  "register_driver driver w =
     (if check_new (driver_heap w) driver (drivers (dispatcher w)) True
      then set_drivers (drivers (dispatcher w) @ [driver]) w else w)"

definition request_rider :: "nat \<Rightarrow> world \<Rightarrow> world \<times> (error + nat option)" where
  "request_rider driver w =
     (if length (waiting_rider (dispatcher w)) > 0 then
        (let rider = waiting_rider (dispatcher w) ! 0 in
         case list_remove (rider_heap w) rider (waiting_rider (dispatcher w)) of
           Inl e \<Rightarrow> (w, Inl e)
         | Inr q \<Rightarrow>
             (register_driver driver
                (set_driver driver
                   ((driver_heap w driver)\<lparr>is_idle := False,
                      destination := Some (origin (rider_heap w rider))\<rparr>)
                   (set_waiting q w)),
              Inr (Some rider)))
      else (register_driver driver w, Inr None))"

text \<open>
  \<^verbatim>\<open>cancel_ride\<close> removes from the list it is iterating over. A Python list iterator
  is an index that is compared with the current length before each step, so the
  element after a removed one is skipped.
\<close>

function cancel_loop :: "(nat \<Rightarrow> Rider) \<Rightarrow> nat \<Rightarrow> nat \<Rightarrow> nat list \<Rightarrow> error + nat list" where
  "cancel_loop h rider i q =
     (if i < length q then
        (if rider_id (h rider) = rider_id (h (q ! i)) then
           (case list_remove h (q ! i) q of
              Inl e \<Rightarrow> Inl e
            | Inr q' \<Rightarrow> cancel_loop h rider (Suc i) q')
         else cancel_loop h rider (Suc i) q)
      else Inr q)"
  by pat_completeness auto
termination
proof -
  have len: "Suc (length q') = length q" if "list_remove h x q = Inr q'" for h x q q'
    using that by (induction q arbitrary: q') (auto split: if_splits sum.splits)
  show ?thesis
    by (relation "measure (\<lambda>(h, rider, i, q). length q - i)") (auto dest: len)
qed

declare cancel_loop.simps [simp del]

definition cancel_ride :: "nat \<Rightarrow> world \<Rightarrow> world \<times> (error + unit)" where
  "cancel_ride rider w =
     (case cancel_loop (rider_heap w) rider 0 (waiting_rider (dispatcher w)) of
        Inl e \<Rightarrow> (w, Inl e)
      | Inr q \<Rightarrow> (set_waiting q w, Inr ()))"

section \<open>Events\<close>

text \<open>
  The five event classes of \<^verbatim>\<open>event.py\<close>; the first argument is the timestamp, the
  others are the references the event holds, in the order of the constructors.
\<close>

datatype Event =
    RiderRequest int nat
  | DriverRequest int nat
  | Cancellation int nat
  | Pickup int nat nat
  | Dropoff int nat nat

fun timestamp :: "Event \<Rightarrow> int" where
  "timestamp (RiderRequest t rider) = t"
| "timestamp (DriverRequest t driver) = t"
| "timestamp (Cancellation t rider) = t"
| "timestamp (Pickup t rider driver) = t"
| "timestamp (Dropoff t rider driver) = t"

definition RiderRequest_do :: "int \<Rightarrow> nat \<Rightarrow> world \<Rightarrow> world \<times> (error + Event list)" where
  "RiderRequest_do t rider w =
     (let w1 = notify t RIDER REQUEST (rider_id (rider_heap w rider))
                 (Some (origin (rider_heap w rider))) w
      in case request_driver rider w1 of
           (w2, Inl e) \<Rightarrow> (w2, Inl e)
         | (w2, Inr None) \<Rightarrow>
             (w2, Inr [Cancellation (t + patience (rider_heap w2 rider)) rider])
         | (w2, Inr (Some driver)) \<Rightarrow>
             (case start_drive (driver_heap w2 driver) (origin (rider_heap w2 rider)) of
                (d, Inl e) \<Rightarrow> (set_driver driver d w2, Inl e)
              | (d, Inr travel_time) \<Rightarrow>
                  (set_driver driver d w2,
                   Inr [Pickup (t + travel_time) rider driver,
                        Cancellation (t + patience (rider_heap w2 rider)) rider])))"

definition DriverRequest_do :: "int \<Rightarrow> nat \<Rightarrow> world \<Rightarrow> world \<times> (error + Event list)" where
  "DriverRequest_do t driver w =
     (let w1 = notify t DRIVER REQUEST (driver_id (driver_heap w driver))
                 (location (driver_heap w driver)) w
      in case request_rider driver w1 of
           (w2, Inl e) \<Rightarrow> (w2, Inl e)
         | (w2, Inr None) \<Rightarrow> (w2, Inr [])
         | (w2, Inr (Some rider)) \<Rightarrow>
             (case start_drive (driver_heap w2 driver) (origin (rider_heap w2 rider)) of
                (d, Inl e) \<Rightarrow> (set_driver driver d w2, Inl e)
              | (d, Inr time) \<Rightarrow>
                  (set_driver driver d w2, Inr [Pickup (t + time) rider driver])))"

definition Cancellation_do :: "int \<Rightarrow> nat \<Rightarrow> world \<Rightarrow> world \<times> (error + Event list)" where
  "Cancellation_do t rider w =
     (if status (rider_heap w rider) = WAITING then
        (let w1 = set_rider rider ((rider_heap w rider)\<lparr>status := CANCELLED\<rparr>) w;
             w2 = notify t RIDER CANCEL (rider_id (rider_heap w1 rider))
                    (Some (origin (rider_heap w1 rider))) w1
         in case cancel_ride rider w2 of
              (w3, Inl e) \<Rightarrow> (w3, Inl e)
            | (w3, Inr u) \<Rightarrow> (w3, Inr []))
      else (w, Inr []))"

definition Pickup_do :: "int \<Rightarrow> nat \<Rightarrow> nat \<Rightarrow> world \<Rightarrow> world \<times> (error + Event list)" where
  "Pickup_do t rider driver w =
     (if status (rider_heap w rider) = WAITING then
        (let w1 = set_driver driver (end_drive (driver_heap w driver)) w;
             w2 = set_rider rider ((rider_heap w1 rider)\<lparr>status := SATISFIED\<rparr>) w1;
             w3 = notify t DRIVER PICKUP (driver_id (driver_heap w2 driver))
                    (location (driver_heap w2 driver)) w2;
             w4 = notify t RIDER PICKUP (rider_id (rider_heap w3 rider))
                    (Some (origin (rider_heap w3 rider))) w3
         in case start_ride (driver_heap w4 driver) (rider_heap w4 rider) of
              (d, Inl e) \<Rightarrow> (set_driver driver d w4, Inl e)
            | (d, Inr travel) \<Rightarrow>
                (set_driver driver d w4, Inr [Dropoff (t + travel) rider driver]))
      else if status (rider_heap w rider) = CANCELLED then
        (set_driver driver (end_drive (driver_heap w driver)) w, Inr [DriverRequest t driver])
      else (w, Inr []))"

definition Dropoff_do :: "int \<Rightarrow> nat \<Rightarrow> nat \<Rightarrow> world \<Rightarrow> world \<times> (error + Event list)" where
  "Dropoff_do t rider driver w =
     (let w1 = set_driver driver (end_ride (driver_heap w driver)) w;
          w2 = notify t RIDER DROPOFF (rider_id (rider_heap w1 rider))
                 (Some (origin (rider_heap w1 rider))) w1;
          w3 = notify t DRIVER DROPOFF (driver_id (driver_heap w2 driver))
                 (location (driver_heap w2 driver)) w2
      in case cancel_ride rider w3 of
           (w4, Inl e) \<Rightarrow> (w4, Inl e)
         | (w4, Inr u) \<Rightarrow> (w4, Inr [DriverRequest t driver]))"

fun do :: "Event \<Rightarrow> world \<Rightarrow> world \<times> (error + Event list)" where
  "do (RiderRequest t rider) w = RiderRequest_do t rider w"
| "do (DriverRequest t driver) w = DriverRequest_do t driver w"
| "do (Cancellation t rider) w = Cancellation_do t rider w"
| "do (Pickup t rider driver) w = Pickup_do t rider driver w"
| "do (Dropoff t rider driver) w = Dropoff_do t rider driver w"

section \<open>The simulation\<close>

text \<open>
  Modelled from the spec: \<^verbatim>\<open>container.py\<close> (\<^verbatim>\<open>PriorityQueue\<close>) is not part of the
  sources. The spec describes a collection of pending events from which the one with
  the least timestamp is removed, events with equal timestamps in an order it leaves
  open. The queue is the list of pending events in the order of their insertion;
  which one \<^verbatim>\<open>remove\<close> takes is a parameter \<open>pick\<close>, a function from the pending
  events to a position (taken modulo the length). \<open>earliest\<close> is the discipline of
  the spec that resolves ties in favour of the event inserted first.
\<close>

definition pq_add :: "Event \<Rightarrow> Event list \<Rightarrow> Event list" where
  "pq_add e q = q @ [e]"

text \<open>
  Modelled from the spec: \<^verbatim>\<open>PriorityQueue.remove\<close>, with the choice of the event as
  the parameter \<open>pick\<close>. \<^verbatim>\<open>run\<close> calls it on a non-empty queue only.
\<close>

definition pq_remove :: "(Event list \<Rightarrow> nat) \<Rightarrow> Event list \<Rightarrow> Event \<times> Event list" where
  "pq_remove pick q = (let i = pick q mod length q in (q ! i, take i q @ drop (Suc i) q))"

text \<open>
  Modelled from the spec: the position of the pending event with the least timestamp,
  the one inserted first among several.
\<close>

fun earliest :: "Event list \<Rightarrow> nat" where
  "earliest [] = 0"
| "earliest [e] = 0"
| "earliest (e # es) =
     (let i = earliest es in if timestamp (es ! i) < timestamp e then Suc i else 0)"

text \<open>The two \<^verbatim>\<open>for\<close> loops of \<^verbatim>\<open>run\<close> that add events to the queue one by one.\<close>

fun add_all :: "Event list \<Rightarrow> Event list \<Rightarrow> Event list" where
  "add_all [] q = q"
| "add_all (e # es) q = add_all es (pq_add e q)"

text \<open>
  The \<^verbatim>\<open>while\<close> loop of \<^verbatim>\<open>Simulation.run\<close>. An exception raised by an event leaves
  the loop and \<^verbatim>\<open>run\<close>; a loop that never ends is the value \<open>None\<close>.
\<close>

partial_function (option) run_loop ::
  "(Event list \<Rightarrow> nat) \<Rightarrow> Event list \<Rightarrow> world \<Rightarrow> (world \<times> (error + unit)) option" where
  "run_loop pick q w =
     (if q = [] then Some (w, Inr ())
      else case pq_remove pick q of
        (event, q') \<Rightarrow>
          (case do event w of
             (w', Inl e) \<Rightarrow> Some (w', Inl e)
           | (w', Inr possible) \<Rightarrow> run_loop pick (add_all possible q') w'))"

text \<open>
  \<^verbatim>\<open>Simulation.__init__\<close> starts with an empty queue, a new dispatcher and a new
  monitor; the stores hold the objects that the initial events refer to.
  \<^verbatim>\<open>run\<close> adds the initial events, runs the loop and returns the monitor's report
  (\<open>report\<close>, the function of the monitor that is not part of the sources).
\<close>

definition Simulation_init :: "(nat \<Rightarrow> Driver) \<Rightarrow> (nat \<Rightarrow> Rider) \<Rightarrow> world" where
  "Simulation_init dh rh =
     \<lparr>driver_heap = dh, rider_heap = rh, dispatcher = Dispatcher_init, monitor = []\<rparr>"

definition run ::
  "(Event list \<Rightarrow> nat) \<Rightarrow> (notification list \<Rightarrow> 'r) \<Rightarrow> Event list \<Rightarrow> world
     \<Rightarrow> (world \<times> (error + 'r)) option" where
  "run pick report initial_events w =
     (case run_loop pick (add_all initial_events []) w of
        None \<Rightarrow> None
      | Some (w', Inl e) \<Rightarrow> Some (w', Inl e)
      | Some (w', Inr u) \<Rightarrow> Some (w', Inr (report (monitor w'))))"

section \<open>Specification predicates and example states\<close>

text \<open>
  The driver that the spec asks \<^verbatim>\<open>request_driver\<close> to select, in the spec's words:
  among the registered drivers \<open>ds\<close> that are idle, one with the least travel time
  to \<open>orig\<close>, and the earliest registered among those. \<open>d\<close> occurs in \<open>ds\<close>, is
  idle, every idle driver registered before it takes strictly longer and no idle
  driver registered after it is faster.
\<close>

definition chosen :: "(nat \<Rightarrow> Driver) \<Rightarrow> Location \<Rightarrow> nat list \<Rightarrow> nat \<Rightarrow> bool" where
  "chosen h orig ds d \<longleftrightarrow>
     (\<exists>pre post t. ds = pre @ d # post \<and> is_idle (h d) \<and> get_travel_time (h d) orig = Inr t
        \<and> (\<forall>x\<in>set pre. is_idle (h x) \<longrightarrow> (\<exists>u. get_travel_time (h x) orig = Inr u \<and> t < u))
        \<and> (\<forall>x\<in>set post. is_idle (h x) \<longrightarrow> (\<exists>u. get_travel_time (h x) orig = Inr u \<and> t \<le> u)))"

text \<open>
  The calls on which \<^verbatim>\<open>get_travel_time\<close> returns: the driver has a location, its
  speed is not 0, and the quotient of the distance and the speed rounds to a finite
  float, which it does exactly when its absolute value is less than
  \<open>2 ^ 1024 - 2 ^ 970\<close> (halfway between the largest float and \<open>2 ^ 1024\<close>).
\<close>

definition travel_time_defined :: "Driver \<Rightarrow> Location \<Rightarrow> bool" where
  "travel_time_defined d dst \<longleftrightarrow>
     (case location d of
        None \<Rightarrow> False
      | Some l \<Rightarrow> speed d \<noteq> 0
          \<and> (of_int (manhattan_distance l dst) :: rat) < (2 ^ 1024 - 2 ^ 970) * \<bar>of_int (speed d)\<bar>)"

text \<open>
  A dispatcher whose only registered driver, idle, was created with speed 0 (the
  constructor accepts any integer).
\<close>

definition zero_speed_world :: world where
  "zero_speed_world =
     \<lparr>driver_heap = (\<lambda>x. Driver_init ''D'' \<lparr>row = 0, col = 0\<rparr> 0),
      rider_heap = (\<lambda>x. Rider_init ''R'' 5 \<lparr>row = 0, col = 1\<rparr> \<lparr>row = 3, col = 3\<rparr>),
      dispatcher = \<lparr>drivers = [0], waiting_rider = []\<rparr>,
      monitor = []\<rparr>"

text \<open>
  Two registered idle drivers of speed 1, \<open>D0\<close> at (0, 0) and \<open>D1\<close> at (0, 2), and
  riders that wait at (0, 1): both drivers are one unit away.
\<close>

definition tie_world :: world where
  "tie_world =
     \<lparr>driver_heap = (\<lambda>x. Driver_init ''D1'' \<lparr>row = 0, col = 2\<rparr> 1)
                      (0 := Driver_init ''D0'' \<lparr>row = 0, col = 0\<rparr> 1),
      rider_heap = (\<lambda>x. Rider_init ''R'' 5 \<lparr>row = 0, col = 1\<rparr> \<lparr>row = 3, col = 3\<rparr>),
      dispatcher = \<lparr>drivers = [0, 1], waiting_rider = []\<rparr>,
      monitor = []\<rparr>"

text \<open>The invariant of the spec on a driver: idle exactly when it has no destination.\<close>

definition idle_iff_no_destination :: "Driver \<Rightarrow> bool" where
  "idle_iff_no_destination d \<longleftrightarrow> (is_idle d \<longleftrightarrow> destination d = None)"

text \<open>
  A new dispatcher. Drivers 0 and 1 are two objects with the same id; riders 1 and 2
  are \<open>R1\<close> and \<open>R2\<close>.
\<close>

definition queue_world :: world where
  "queue_world =
     \<lparr>driver_heap = (\<lambda>x. Driver_init ''D'' \<lparr>row = 0, col = 0\<rparr> 1),
      rider_heap = (\<lambda>x. Rider_init ''R'' 5 \<lparr>row = 0, col = 0\<rparr> \<lparr>row = 3, col = 3\<rparr>)
                     (1 := Rider_init ''R1'' 5 \<lparr>row = 0, col = 1\<rparr> \<lparr>row = 3, col = 3\<rparr>,
                      2 := Rider_init ''R2'' 5 \<lparr>row = 0, col = 2\<rparr> \<lparr>row = 3, col = 3\<rparr>),
      dispatcher = Dispatcher_init,
      monitor = []\<rparr>"

text \<open>
  A driver of speed 0 on its way to (1, 1), where a rider waits.
\<close>

definition pickup_zero_speed_world :: world where
  "pickup_zero_speed_world =
     \<lparr>driver_heap = (\<lambda>x. (Driver_init ''D'' \<lparr>row = 0, col = 0\<rparr> 0)
                             \<lparr>is_idle := False, destination := Some \<lparr>row = 1, col = 1\<rparr>\<rparr>),
      rider_heap = (\<lambda>x. Rider_init ''R'' 5 \<lparr>row = 1, col = 1\<rparr> \<lparr>row = 3, col = 3\<rparr>),
      dispatcher = \<lparr>drivers = [0], waiting_rider = []\<rparr>,
      monitor = []\<rparr>"

text \<open>
  A driver of speed 1 on its way to (1, 1), and a rider who waits at (2, 2).
\<close>

definition pickup_elsewhere_world :: world where
  "pickup_elsewhere_world =
     \<lparr>driver_heap = (\<lambda>x. (Driver_init ''D'' \<lparr>row = 0, col = 0\<rparr> 1)
                             \<lparr>is_idle := False, destination := Some \<lparr>row = 1, col = 1\<rparr>\<rparr>),
      rider_heap = (\<lambda>x. Rider_init ''R'' 5 \<lparr>row = 2, col = 2\<rparr> \<lparr>row = 3, col = 3\<rparr>),
      dispatcher = \<lparr>drivers = [0], waiting_rider = []\<rparr>,
      monitor = []\<rparr>"

text \<open>
  The status of rider \<open>r\<close> before and after each of the events \<open>es\<close>, executed one
  after the other from \<open>w\<close> in any order whatever (an event that raises keeps the
  assignments it made, and the executions go on).
\<close>

fun status_trace :: "nat \<Rightarrow> Event list \<Rightarrow> world \<Rightarrow> rider_status list" where
  "status_trace r [] w = [status (rider_heap w r)]"
| "status_trace r (e # es) w = status (rider_heap w r) # status_trace r es (fst (do e w))"

text \<open>
  The end-to-end example of the spec: driver \<open>D0\<close> at (3, 5) with speed 3, registered
  and idle, and rider \<open>R0\<close> with patience 10 from (7, 7) to (20, 2).
\<close>

definition e2e_world :: world where
  "e2e_world =
     \<lparr>driver_heap = (\<lambda>x. Driver_init ''D0'' \<lparr>row = 3, col = 5\<rparr> 3),
      rider_heap = (\<lambda>x. Rider_init ''R0'' 10 \<lparr>row = 7, col = 7\<rparr> \<lparr>row = 20, col = 2\<rparr>),
      dispatcher = \<lparr>drivers = [0], waiting_rider = []\<rparr>,
      monitor = []\<rparr>"

text \<open>
  The measure that shows the loop of \<^verbatim>\<open>run\<close> to end: a weight for every pending
  event, and three units for every rider in the waiting queue. An event weighs more
  than all that its execution can leave behind: a rider's request (5) leaves a
  Cancellation and either a Pickup or one more waiting rider; a driver's request (1)
  leaves nothing, or a Pickup (3) for a rider taken off the waiting queue; a Pickup
  leaves at most a Dropoff (2), a Dropoff a driver's request, a Cancellation nothing.
\<close>

fun weight :: "Event \<Rightarrow> nat" where
  "weight (RiderRequest t rider) = 5"
| "weight (DriverRequest t driver) = 1"
| "weight (Cancellation t rider) = 1"
| "weight (Pickup t rider driver) = 3"
| "weight (Dropoff t rider driver) = 2"

definition potential :: "Event list \<Rightarrow> world \<Rightarrow> nat" where
  "potential q w = sum_list (map weight q) + 3 * length (waiting_rider (dispatcher w))"

text \<open>
  One driver of speed 1 at (0, 0), and three riders of patience 2, 100 and 100. In
  the initial events, the driver requests a rider at time 1 and again at time 4,
  while it is on its way to the first rider.
\<close>

definition shared_driver_world :: world where
  "shared_driver_world =
     Simulation_init (\<lambda>x. Driver_init ''D'' \<lparr>row = 0, col = 0\<rparr> 1)
       ((\<lambda>x. Rider_init ''R3'' 100 \<lparr>row = 0, col = 0\<rparr> \<lparr>row = 1, col = 1\<rparr>)
          (0 := Rider_init ''R1'' 2 \<lparr>row = 0, col = 10\<rparr> \<lparr>row = 0, col = 11\<rparr>,
           1 := Rider_init ''R2'' 100 \<lparr>row = 0, col = 0\<rparr> \<lparr>row = 0, col = 1\<rparr>))"

definition shared_driver_events :: "Event list" where
  "shared_driver_events =
     [RiderRequest 0 0, DriverRequest 1 0, RiderRequest 3 1, DriverRequest 4 0,
      RiderRequest 20 2]"

section \<open>Store and monitor updates\<close>

lemma notify_simps [simp]:
  "driver_heap (notify t a k i l w) = driver_heap w"
  "rider_heap (notify t a k i l w) = rider_heap w"
  "dispatcher (notify t a k i l w) = dispatcher w"
  "monitor (notify t a k i l w) = monitor w @ [(t, a, k, i, l)]"
  by (simp_all add: notify_def)

lemma set_driver_simps [simp]:
  "driver_heap (set_driver d v w) = (driver_heap w)(d := v)"
  "rider_heap (set_driver d v w) = rider_heap w"
  "dispatcher (set_driver d v w) = dispatcher w"
  "monitor (set_driver d v w) = monitor w"
  by (simp_all add: set_driver_def)

lemma set_rider_simps [simp]:
  "driver_heap (set_rider r v w) = driver_heap w"
  "rider_heap (set_rider r v w) = (rider_heap w)(r := v)"
  "dispatcher (set_rider r v w) = dispatcher w"
  "monitor (set_rider r v w) = monitor w"
  by (simp_all add: set_rider_def)

lemma set_waiting_simps [simp]:
  "driver_heap (set_waiting q w) = driver_heap w"
  "rider_heap (set_waiting q w) = rider_heap w"
  "drivers (dispatcher (set_waiting q w)) = drivers (dispatcher w)"
  "waiting_rider (dispatcher (set_waiting q w)) = q"
  "monitor (set_waiting q w) = monitor w"
  by (simp_all add: set_waiting_def)

lemma set_drivers_simps [simp]:
  "driver_heap (set_drivers ds w) = driver_heap w"
  "rider_heap (set_drivers ds w) = rider_heap w"
  "drivers (dispatcher (set_drivers ds w)) = ds"
  "waiting_rider (dispatcher (set_drivers ds w)) = waiting_rider (dispatcher w)"
  "monitor (set_drivers ds w) = monitor w"
  by (simp_all add: set_drivers_def)

section \<open>Rounding to the nearest integer\<close>

lemma round_half_even_nearest: "\<bar>of_int (round_half_even x) - x\<bar> \<le> 1 / 2"
proof -
  have "of_int \<lfloor>x\<rfloor> \<le> x" "x < of_int \<lfloor>x\<rfloor> + 1" by linarith+
  then show ?thesis
    unfolding round_half_even_def Let_def by (auto simp: abs_le_iff)
qed

lemma round_half_even_of_int [simp]: "round_half_even (of_int n) = n"
  by (simp add: round_half_even_def)

lemma round_half_even_mono_int:
  assumes "of_int n \<le> x"
  shows "n \<le> round_half_even x"
proof -
  from assms have "n \<le> \<lfloor>x\<rfloor>" by (simp add: le_floor_iff)
  then show ?thesis unfolding round_half_even_def Let_def by auto
qed

lemma round_half_even_le_int:
  assumes "x \<le> of_int n"
  shows "round_half_even x \<le> n"
proof (cases "\<lfloor>x\<rfloor> = n")
  case True
  then have "of_int n \<le> x" by (metis of_int_floor_le)
  with assms have "x = of_int n" by simp
  then show ?thesis by simp
next
  case False
  from assms have "\<lfloor>x\<rfloor> \<le> n" by (simp add: floor_le_iff)
  with False have "\<lfloor>x\<rfloor> + 1 \<le> n" by simp
  then show ?thesis unfolding round_half_even_def Let_def by auto
qed

lemma round_half_even_nonneg: "0 \<le> x \<Longrightarrow> 0 \<le> round_half_even x"
  using round_half_even_mono_int [of 0 x] by simp

lemma round_half_even_halfway:
  assumes "x = of_int k + 1 / 2"
  shows "round_half_even x = (if even k then k else k + 1)"
proof -
  have "\<lfloor>x\<rfloor> = k" using assms by (simp add: floor_unique)
  then show ?thesis unfolding round_half_even_def Let_def using assms by simp
qed

section \<open>Floats\<close>

lemma binade_ge: "- 1022 \<le> binade x"
proof (cases "1 \<le> \<bar>x\<bar>")
  case True
  then have "0 < \<lfloor>\<bar>x\<bar>\<rfloor>" by linarith
  then have "1 \<le> bitlen \<lfloor>\<bar>x\<bar>\<rfloor>"
    using bitlen_eq_zero_iff [of "\<lfloor>\<bar>x\<bar>\<rfloor>"] bitlen_nonneg [of "\<lfloor>\<bar>x\<bar>\<rfloor>"] by linarith
  with True show ?thesis by (simp add: binade_def)
next
  case False
  then show ?thesis by (simp add: binade_def)
qed

lemma bitlen_rat_bounds:
  assumes "0 < m"
  shows "(2::rat) powi (bitlen m - 1) \<le> of_int m" and "of_int m < (2::rat) powi (bitlen m)"
proof -
  from assms have b: "1 \<le> bitlen m"
    using bitlen_eq_zero_iff [of m] bitlen_nonneg [of m] by linarith
  from bitlen_bounds [OF assms]
  have lo: "2 ^ nat (bitlen m - 1) \<le> m" and hi: "m < 2 ^ nat (bitlen m)" by simp_all
  have "(2::rat) powi (bitlen m - 1) = of_int (2 ^ nat (bitlen m - 1))"
    using b by (simp add: power_int_nonneg_exp)
  also have "\<dots> \<le> of_int m" using lo by (simp only: of_int_le_iff)
  finally show "(2::rat) powi (bitlen m - 1) \<le> of_int m" .
  have "(of_int m :: rat) < of_int (2 ^ nat (bitlen m))"
    using hi by (simp only: of_int_less_iff)
  also have "\<dots> = 2 powi (bitlen m)"
    using b by (simp add: power_int_nonneg_exp)
  finally show "of_int m < (2::rat) powi (bitlen m)" .
qed

lemma binade_large:
  assumes "1 \<le> \<bar>x\<bar>"
  shows "2 powi (binade x) \<le> \<bar>x\<bar>" and "\<bar>x\<bar> < 2 powi (binade x + 1)"
proof -
  let ?m = "\<lfloor>\<bar>x\<bar>\<rfloor>"
  from assms have m: "0 < ?m" by linarith
  have e: "binade x = bitlen ?m - 1" using assms by (simp add: binade_def)
  have "2 powi (binade x) \<le> (of_int ?m :: rat)"
    unfolding e using bitlen_rat_bounds(1) [OF m] .
  also have "\<dots> \<le> \<bar>x\<bar>" by linarith
  finally show "2 powi (binade x) \<le> \<bar>x\<bar>" .
  have "of_int (?m + 1) \<le> (2::rat) powi (bitlen ?m)"
  proof -
    from bitlen_bounds [OF m] have "?m + 1 \<le> 2 ^ nat (bitlen ?m)" by simp
    then have "(of_int (?m + 1) :: rat) \<le> of_int (2 ^ nat (bitlen ?m))"
      by (simp only: of_int_le_iff)
    also have "\<dots> = 2 powi (bitlen ?m)"
      using bitlen_nonneg [of ?m] by (simp add: power_int_nonneg_exp)
    finally show ?thesis .
  qed
  moreover have "\<bar>x\<bar> < of_int (?m + 1)" by linarith
  ultimately show "\<bar>x\<bar> < 2 powi (binade x + 1)" unfolding e by simp
qed

lemma binade_small:
  assumes "x \<noteq> 0" and "\<bar>x\<bar> < 1"
  shows "2 powi (- 1022) \<le> \<bar>x\<bar> \<Longrightarrow> 2 powi (binade x) \<le> \<bar>x\<bar>"
    and "\<bar>x\<bar> < 2 powi (binade x + 1)"
proof -
  let ?a = "\<bar>x\<bar>"
  let ?n = "\<lceil>1 / ?a\<rceil> - 1"
  let ?k = "bitlen ?n"
  from assms have a: "0 < ?a" by simp
  with assms(2) have y: "1 < 1 / ?a" by (simp add: field_simps)
  then have n: "0 < ?n" by linarith
  have n_lt: "of_int ?n < 1 / ?a" by linarith
  have le_c: "1 / ?a \<le> of_int (?n + 1)" by linarith
  have "of_int (?n + 1) \<le> (2::rat) powi ?k"
  proof -
    from bitlen_bounds [OF n] have "?n + 1 \<le> 2 ^ nat ?k" by simp
    then have "(of_int (?n + 1) :: rat) \<le> of_int (2 ^ nat ?k)"
      by (simp only: of_int_le_iff)
    also have "\<dots> = 2 powi ?k"
      using bitlen_nonneg [of ?n] by (simp add: power_int_nonneg_exp)
    finally show ?thesis .
  qed
  with le_c have "1 / ?a \<le> 2 powi ?k" by linarith
  then have "1 \<le> ?a * 2 powi ?k" using a by (simp add: field_simps)
  then have lo: "2 powi (- ?k) \<le> ?a"
    by (simp add: power_int_minus field_simps)
  from bitlen_rat_bounds(1) [OF n] n_lt have "2 powi (?k - 1) < 1 / ?a" by linarith
  then have "?a * 2 powi (?k - 1) < 1" using a by (simp add: field_simps)
  moreover have "(2::rat) powi (- ?k + 1) * 2 powi (?k - 1) = 1"
    by (simp flip: power_int_add)
  ultimately have "?a * 2 powi (?k - 1) < 2 powi (- ?k + 1) * 2 powi (?k - 1)" by simp
  then have hi: "?a < 2 powi (- ?k + 1)"
    by (rule mult_right_less_imp_less) simp
  have e: "binade x = max (- 1022) (- ?k)" using assms(2) by (simp add: binade_def)
  show "\<bar>x\<bar> < 2 powi (binade x + 1)"
  proof -
    have "- ?k + 1 \<le> binade x + 1" unfolding e by simp
    then have "(2::rat) powi (- ?k + 1) \<le> 2 powi (binade x + 1)"
      by (intro power_int_increasing) simp_all
    with hi show ?thesis by linarith
  qed
  show "2 powi (binade x) \<le> \<bar>x\<bar>" if big: "2 powi (- 1022) \<le> \<bar>x\<bar>"
  proof (cases "- 1022 \<le> - ?k")
    case True
    then have "binade x = - ?k" unfolding e by simp
    with lo show ?thesis by simp
  next
    case False
    then have "binade x = - 1022" unfolding e by simp
    with big show ?thesis by simp
  qed
qed

lemma binade_upper: "x \<noteq> 0 \<Longrightarrow> \<bar>x\<bar> < 2 powi (binade x + 1)"
  using binade_large(2) [of x] binade_small(2) [of x] by (cases "1 \<le> \<bar>x\<bar>") auto

lemma binade_lower: "2 powi (- 1022) \<le> \<bar>x\<bar> \<Longrightarrow> 2 powi (binade x) \<le> \<bar>x\<bar>"
proof (cases "1 \<le> \<bar>x\<bar>")
  case True
  then show ?thesis using binade_large(1) by simp
next
  case False
  assume big: "2 powi (- 1022) \<le> \<bar>x\<bar>"
  have "(0::rat) < 2 powi (- 1022)" by simp
  with big have "x \<noteq> 0" by auto
  with False big show ?thesis using binade_small(1) [of x] by simp
qed

lemma binade_lower_or_least:
  assumes "x \<noteq> 0"
  shows "binade x = - 1022 \<or> 2 powi (binade x) \<le> \<bar>x\<bar>"
proof (cases "2 powi (- 1022) \<le> \<bar>x\<bar>")
  case True
  then show ?thesis using binade_lower by blast
next
  case False
  then have small: "\<bar>x\<bar> < 2 powi (- 1022)" by simp
  have "(2::rat) powi (- 1022) \<le> 2 powi 0"
    by (intro power_int_increasing) simp_all
  with small have lt1: "\<bar>x\<bar> < 1" by simp
  have "binade x \<le> - 1022"
  proof (rule ccontr)
    assume "\<not> binade x \<le> - 1022"
    then have gt: "- 1022 < binade x" by simp
    let ?n = "\<lceil>1 / \<bar>x\<bar>\<rceil> - 1"
    from gt lt1 have e: "binade x = - bitlen ?n" by (auto simp: binade_def max_def split: if_splits)
    from assms lt1 have "1 < 1 / \<bar>x\<bar>" by (simp add: field_simps)
    then have n: "0 < ?n" by linarith
    have "1 / \<bar>x\<bar> \<le> of_int (?n + 1)" by linarith
    moreover have "of_int (?n + 1) \<le> (2::rat) powi (bitlen ?n)"
    proof -
      from bitlen_bounds [OF n] have "?n + 1 \<le> 2 ^ nat (bitlen ?n)" by simp
      then have "(of_int (?n + 1) :: rat) \<le> of_int (2 ^ nat (bitlen ?n))"
        by (simp only: of_int_le_iff)
      also have "\<dots> = 2 powi (bitlen ?n)"
        using bitlen_nonneg [of ?n] by (simp add: power_int_nonneg_exp)
      finally show ?thesis .
    qed
    ultimately have "1 / \<bar>x\<bar> \<le> 2 powi (bitlen ?n)" by linarith
    moreover have "(2::rat) powi (bitlen ?n) \<le> 2 powi 1022"
      using gt e by (intro power_int_increasing) simp_all
    ultimately have "1 / \<bar>x\<bar> \<le> 2 powi 1022" by linarith
    then have "1 \<le> \<bar>x\<bar> * 2 powi 1022" using assms by (simp add: field_simps)
    moreover have "\<bar>x\<bar> * 2 powi 1022 < 2 powi (- 1022) * 2 powi 1022"
      using small by simp
    moreover have "(2::rat) powi (- 1022) * 2 powi 1022 = 1"
      by (simp flip: power_int_add)
    ultimately show False by simp
  qed
  with binade_ge [of x] show ?thesis by simp
qed

lemma power_int_2_less_imp: "(2::rat) powi a < 2 powi b \<Longrightarrow> a < b"
  by (rule ccontr) (use power_int_increasing [of b a "2::rat"] in simp)

lemma power_int_2_le_imp: "(2::rat) powi a \<le> 2 powi b \<Longrightarrow> a \<le> b"
  by (rule ccontr) (use power_int_strict_increasing [of b a "2::rat"] in simp)

lemma binade_unique:
  assumes "2 powi e \<le> \<bar>x\<bar>" and "\<bar>x\<bar> < 2 powi (e + 1)" and "- 1022 \<le> e"
  shows "binade x = e"
proof -
  have "(0::rat) < 2 powi e" by simp
  with assms(1) have "0 < \<bar>x\<bar>" by linarith
  then have nz: "x \<noteq> 0" by simp
  from binade_upper [OF nz] assms(1) have "(2::rat) powi e < 2 powi (binade x + 1)" by simp
  then have le: "e \<le> binade x" using power_int_2_less_imp by fastforce
  from binade_lower_or_least [OF nz] have "binade x \<le> e"
  proof
    assume "binade x = - 1022" with assms(3) show ?thesis by simp
  next
    assume "2 powi (binade x) \<le> \<bar>x\<bar>"
    with assms(2) have "(2::rat) powi (binade x) < 2 powi (e + 1)" by simp
    then show ?thesis using power_int_2_less_imp by fastforce
  qed
  with le show ?thesis by simp
qed

lemma binade_minus [simp]: "binade (- x) = binade x"
  by (simp add: binade_def)

lemma round_half_even_minus: "round_half_even (- x) = - round_half_even x"
proof (cases "x = of_int \<lfloor>x\<rfloor>")
  case True
  then obtain k where "x = of_int k" by blast
  then show ?thesis by (simp flip: of_int_minus)
next
  case False
  have "\<lfloor>- x\<rfloor> = - \<lceil>x\<rceil>" by (simp add: ceiling_def)
  also have "\<dots> = - \<lfloor>x\<rfloor> - 1" using False by (simp add: ceiling_altdef)
  finally have f: "\<lfloor>- x\<rfloor> = - \<lfloor>x\<rfloor> - 1" .
  have lo: "of_int \<lfloor>x\<rfloor> < x" using False by (metis le_less of_int_floor_le)
  show ?thesis
    unfolding round_half_even_def Let_def f using lo by (auto simp: algebra_simps)
qed

lemma float_round_minus: "float_round (- x) = - float_round x"
  by (simp add: float_round_def round_half_even_minus)

lemma float_round_0 [simp]: "float_round 0 = 0"
  by (simp add: float_round_def)

lemma float_round_nonneg: "0 \<le> x \<Longrightarrow> 0 \<le> float_round x"
proof -
  assume x: "0 \<le> x"
  let ?u = "(2::rat) powi (binade x - 52)"
  have "0 \<le> x / ?u" using x by simp
  then have "0 \<le> round_half_even (x / ?u)"
    using round_half_even_mono_int [of 0 "x / ?u"] by simp
  then show ?thesis by (simp add: float_round_def)
qed

lemma float_round_error:
  assumes "x \<noteq> 0"
  shows "\<bar>float_round x - x\<bar> \<le> 2 powi (binade x - 53)"
proof -
  let ?u = "(2::rat) powi (binade x - 52)"
  have u: "0 < ?u" by simp
  have "\<bar>of_int (round_half_even (x / ?u)) - x / ?u\<bar> * ?u \<le> 1 / 2 * ?u"
    using round_half_even_nearest [of "x / ?u"] u by (intro mult_right_mono) simp_all
  moreover have "\<bar>of_int (round_half_even (x / ?u)) - x / ?u\<bar> * ?u
      = \<bar>of_int (round_half_even (x / ?u)) * ?u - x\<bar>"
  proof -
    have "\<bar>of_int (round_half_even (x / ?u)) - x / ?u\<bar> * ?u
        = \<bar>(of_int (round_half_even (x / ?u)) - x / ?u) * ?u\<bar>"
      using u by (simp add: abs_mult)
    also have "(of_int (round_half_even (x / ?u)) - x / ?u) * ?u
        = of_int (round_half_even (x / ?u)) * ?u - x"
      using u by (simp add: algebra_simps)
    finally show ?thesis .
  qed
  moreover have "1 / 2 * ?u = 2 powi (binade x - 53)"
  proof -
    have "(2::rat) powi (binade x - 52) = 2 powi (binade x - 53 + 1)" by simp
    also have "\<dots> = 2 powi (binade x - 53) * 2" by (subst power_int_add) simp_all
    finally show ?thesis by simp
  qed
  ultimately show ?thesis using assms by (simp add: float_round_def)
qed

lemma float_round_exact:
  assumes "\<bar>m\<bar> < 2 ^ 53" and "- 1074 \<le> j"
  shows "float_round (of_int m * 2 powi j) = of_int m * 2 powi j"
proof (cases "m = 0")
  case True
  then show ?thesis by simp
next
  case False
  let ?x = "of_int m * (2::rat) powi j"
  let ?e = "binade ?x"
  have nz: "?x \<noteq> 0" using False by simp
  have ax: "\<bar>?x\<bar> = of_int \<bar>m\<bar> * 2 powi j" by (simp add: abs_mult)
  have "(of_int \<bar>m\<bar> :: rat) < of_int (2 ^ 53)" using assms(1) by (simp only: of_int_less_iff)
  then have "\<bar>?x\<bar> < 2 ^ 53 * 2 powi j" unfolding ax by simp
  also have "\<dots> = 2 powi (j + 53)" by (subst power_int_add) simp_all
  finally have up: "\<bar>?x\<bar> < 2 powi (j + 53)" .
  have le: "?e - 52 \<le> j"
    using binade_lower_or_least [OF nz]
  proof
    assume "?e = - 1022" with assms(2) show ?thesis by simp
  next
    assume "2 powi ?e \<le> \<bar>?x\<bar>"
    with up have "(2::rat) powi ?e < 2 powi (j + 53)" by simp
    then have "?e < j + 53" by (rule power_int_2_less_imp)
    then show ?thesis by simp
  qed
  let ?d = "nat (j - (?e - 52))"
  have "(2::rat) powi j = 2 powi (j - (?e - 52) + (?e - 52))" by simp
  also have "\<dots> = 2 powi (j - (?e - 52)) * 2 powi (?e - 52)"
    by (subst power_int_add) simp_all
  also have "(2::rat) powi (j - (?e - 52)) = 2 ^ ?d"
    using le by (simp add: power_int_nonneg_exp)
  finally have pj: "(2::rat) powi j = 2 ^ ?d * 2 powi (?e - 52)" .
  have q: "?x / 2 powi (?e - 52) = of_int (m * 2 ^ ?d)"
    by (subst pj) simp
  have "float_round ?x = of_int (round_half_even (?x / 2 powi (?e - 52))) * 2 powi (?e - 52)"
    using nz by (simp add: float_round_def)
  also have "\<dots> = of_int (m * 2 ^ ?d) * 2 powi (?e - 52)"
    by (simp only: q round_half_even_of_int)
  also have "\<dots> = ?x" by (subst (2) pj) simp
  finally show ?thesis .
qed

lemma float_round_of_int: "\<bar>m\<bar> < 2 ^ 53 \<Longrightarrow> float_round (of_int m) = of_int m"
  using float_round_exact [of m 0] by simp

lemma float_round_half: "\<bar>m\<bar> < 2 ^ 53 \<Longrightarrow> float_round (of_int m / 2) = of_int m / 2"
  using float_round_exact [of m "- 1"] by (simp add: power_int_minus field_simps)

lemma round_half_even_ge_even:
  assumes "of_int n - 1 / 2 \<le> y" and "even n"
  shows "n \<le> round_half_even y"
proof (cases "of_int n \<le> y")
  case True
  then show ?thesis by (rule round_half_even_mono_int)
next
  case False
  with assms(1) have f: "\<lfloor>y\<rfloor> = n - 1" by (intro floor_unique) simp_all
  have "odd (n - 1)" using assms(2) by simp
  with assms(1) show ?thesis
    unfolding round_half_even_def Let_def f by auto
qed

lemma round_half_even_less:
  assumes "y < of_int n - 1 / 2"
  shows "round_half_even y \<le> n - 1"
proof (cases "\<lfloor>y\<rfloor> = n - 1")
  case True
  with assms show ?thesis unfolding round_half_even_def Let_def by auto
next
  case False
  from assms have "y < of_int n" by simp
  then have "\<lfloor>y\<rfloor> < n" by (simp add: floor_less_iff)
  with False have "\<lfloor>y\<rfloor> + 1 \<le> n - 1" by simp
  then show ?thesis unfolding round_half_even_def Let_def by auto
qed

lemma float_round_le_next:
  assumes "0 < x"
  shows "float_round x \<le> 2 powi (binade x + 1)"
proof -
  let ?e = "binade x"
  let ?u = "(2::rat) powi (?e - 52)"
  have u: "0 < ?u" by simp
  have split: "(2::rat) powi (?e + 1) = 2 ^ 53 * ?u"
  proof -
    have "?e + 1 = 53 + (?e - 52)" by simp
    then have "(2::rat) powi (?e + 1) = 2 powi (53 + (?e - 52))" by (rule arg_cong)
    also have "\<dots> = 2 powi 53 * ?u" by (subst power_int_add) simp_all
    finally show ?thesis by simp
  qed
  from binade_upper [of x] assms have "x < 2 ^ 53 * ?u" unfolding split by simp
  then have "x / ?u < 2 ^ 53" using u by (simp add: field_simps)
  then have "x / ?u \<le> of_int (2 ^ 53)" by simp
  then have "round_half_even (x / ?u) \<le> 2 ^ 53" by (rule round_half_even_le_int)
  then have "(of_int (round_half_even (x / ?u)) :: rat) \<le> of_int (2 ^ 53)"
    by (simp only: of_int_le_iff)
  then have "of_int (round_half_even (x / ?u)) * ?u \<le> 2 ^ 53 * ?u"
    using u by (intro mult_right_mono) simp_all
  with assms show ?thesis unfolding split by (simp add: float_round_def)
qed

lemma float_round_overflow_pos:
  assumes "0 \<le> x"
  shows "2 ^ 1024 \<le> float_round x \<longleftrightarrow> 2 ^ 1024 - 2 ^ 970 \<le> x"
proof (cases "x = 0")
  case True
  then show ?thesis by simp
next
  case False
  with assms have pos: "0 < x" by simp
  let ?e = "binade x"
  let ?u = "(2::rat) powi (?e - 52)"
  have u: "0 < ?u" by simp
  have fr: "float_round x = of_int (round_half_even (x / ?u)) * ?u"
    using False by (simp add: float_round_def)
  show ?thesis
  proof (cases "2 ^ 1024 \<le> x")
    case big: True
    then have one: "1 \<le> \<bar>x\<bar>" by simp
    from binade_large [OF one] pos have lo: "2 powi ?e \<le> x" and hi: "x < 2 powi (?e + 1)"
      by simp_all
    from big hi have "(2::rat) powi 1024 < 2 powi (?e + 1)" by simp
    then have e: "1024 \<le> ?e" using power_int_2_less_imp by fastforce
    have split: "(2::rat) powi ?e = 2 ^ 52 * ?u"
    proof -
      have "(2::rat) powi ?e = 2 powi (52 + (?e - 52))" by simp
      also have "\<dots> = 2 powi 52 * ?u" by (subst power_int_add) simp_all
      finally show ?thesis by simp
    qed
    from lo have "2 ^ 52 * ?u \<le> x" unfolding split .
    then have "of_int (2 ^ 52) \<le> x / ?u" using u by (simp add: field_simps)
    then have "2 ^ 52 \<le> round_half_even (x / ?u)" by (rule round_half_even_mono_int)
    then have "(of_int (2 ^ 52) :: rat) \<le> of_int (round_half_even (x / ?u))"
      by (simp only: of_int_le_iff)
    then have "2 ^ 52 * ?u \<le> float_round x"
      unfolding fr using u by (intro mult_right_mono) simp_all
    moreover have "(2::rat) powi 1024 \<le> 2 powi ?e"
      using e by (intro power_int_increasing) simp_all
    ultimately have "2 ^ 1024 \<le> float_round x" unfolding split [symmetric] by simp
    with big show ?thesis by simp
  next
    case small: False
    show ?thesis
    proof (cases "2 ^ 1023 \<le> x")
      case True
      have "binade x = 1023"
        using True small pos by (intro binade_unique) simp_all
      then have ue: "?u = 2 ^ 971" by simp
      show ?thesis
      proof
        assume "2 ^ 1024 - 2 ^ 970 \<le> x"
        then have "of_int (2 ^ 53) - 1 / 2 \<le> x / ?u" unfolding ue by (simp add: field_simps)
        then have "2 ^ 53 \<le> round_half_even (x / ?u)"
          by (rule round_half_even_ge_even) simp
        then have "(of_int (2 ^ 53) :: rat) \<le> of_int (round_half_even (x / ?u))"
          by (simp only: of_int_le_iff)
        then have "2 ^ 53 * ?u \<le> float_round x"
          unfolding fr using u by (intro mult_right_mono) simp_all
        then show "2 ^ 1024 \<le> float_round x" unfolding ue by simp
      next
        assume ov: "2 ^ 1024 \<le> float_round x"
        show "2 ^ 1024 - 2 ^ 970 \<le> x"
        proof (rule ccontr)
          assume "\<not> 2 ^ 1024 - 2 ^ 970 \<le> x"
          then have "x / ?u < of_int (2 ^ 53) - 1 / 2" unfolding ue by (simp add: field_simps)
          then have "round_half_even (x / ?u) \<le> 2 ^ 53 - 1" by (rule round_half_even_less)
          then have "(of_int (round_half_even (x / ?u)) :: rat) \<le> of_int (2 ^ 53 - 1)"
            by (simp only: of_int_le_iff)
          then have "float_round x \<le> of_int (2 ^ 53 - 1) * ?u"
            unfolding fr using u by (intro mult_right_mono) simp_all
          with ov show False unfolding ue by simp
        qed
      qed
    next
      case False
      then have lt: "x < 2 powi 1023" by simp
      have "x \<noteq> 0" using pos by simp
      from binade_lower_or_least [OF this] have "?e \<le> 1022"
      proof
        assume "?e = - 1022" then show ?thesis by simp
      next
        assume "2 powi ?e \<le> \<bar>x\<bar>"
        with lt pos have "(2::rat) powi ?e < 2 powi 1023" by simp
        then have "?e < 1023" by (rule power_int_2_less_imp)
        then show ?thesis by simp
      qed
      then have "(2::rat) powi (?e + 1) \<le> 2 powi 1023"
        by (intro power_int_increasing) simp_all
      with float_round_le_next [OF pos] have "float_round x \<le> 2 ^ 1023" by simp
      moreover have "x < 2 ^ 1024 - 2 ^ 970" using False by simp
      ultimately show ?thesis by simp
    qed
  qed
qed

lemma float_round_abs: "\<bar>float_round x\<bar> = float_round \<bar>x\<bar>"
proof (cases "0 \<le> x")
  case True
  then show ?thesis using float_round_nonneg [of x] by simp
next
  case False
  then have "0 \<le> - x" by simp
  from float_round_nonneg [OF this] False show ?thesis
    by (simp add: float_round_minus abs_if)
qed

lemma float_round_overflow_iff:
  "2 ^ 1024 \<le> \<bar>float_round x\<bar> \<longleftrightarrow> 2 ^ 1024 - 2 ^ 970 \<le> \<bar>x\<bar>"
  unfolding float_round_abs by (rule float_round_overflow_pos) simp

text \<open>Floats that a proof can read off: small integers and their halves.\<close>

lemma float_round_one: "float_round 1 = 1"
  using float_round_of_int [of 1] by simp

lemma float_round_numeral:
  "(numeral n :: int) < 2 ^ 53 \<Longrightarrow> float_round (numeral n) = numeral n"
  using float_round_of_int [of "numeral n"] by simp

lemma float_round_one_half: "float_round (1 / 2) = 1 / 2"
  using float_round_half [of 1] by simp

lemma float_round_numeral_half:
  "(numeral n :: int) < 2 ^ 53 \<Longrightarrow> float_round (numeral n / 2) = numeral n / 2"
  using float_round_half [of "numeral n"] by simp

section \<open>Division and travel time\<close>

lemma true_divide_cases:
  "true_divide a b =
     (if b = 0 then Inl ZeroDivisionError
      else if (2 ^ 1024 - 2 ^ 970) * \<bar>of_int b\<bar> \<le> (\<bar>of_int a\<bar> :: rat) then Inl OverflowError
      else Inr (float_round (of_int a / of_int b)))"
proof (cases "b = 0")
  case True
  then show ?thesis by (simp add: true_divide_def)
next
  case False
  have "2 ^ 1024 - 2 ^ 970 \<le> \<bar>(of_int a / of_int b :: rat)\<bar>
          \<longleftrightarrow> (2 ^ 1024 - 2 ^ 970) * \<bar>of_int b\<bar> \<le> (\<bar>of_int a\<bar> :: rat)"
    using False by (simp add: abs_divide pos_le_divide_eq)
  with False show ?thesis
    by (simp only: true_divide_def float_round_overflow_iff if_False)
qed

lemmas eval_travel =
  true_divide_def py_round_def round_half_even_def Let_def manhattan_distance_def
  float_round_0 float_round_one float_round_numeral float_round_one_half
  float_round_numeral_half

lemma manhattan_distance_nonneg: "0 \<le> manhattan_distance A B"
  by (simp add: manhattan_distance_def)


lemma get_travel_time_cases:
  "get_travel_time d dst =
     (case location d of
        None \<Rightarrow> Inl AttributeError
      | Some l \<Rightarrow>
          if speed d = 0 then Inl ZeroDivisionError
          else if (2 ^ 1024 - 2 ^ 970) * \<bar>of_int (speed d)\<bar>
                    \<le> (of_int (manhattan_distance l dst) :: rat) then Inl OverflowError
          else Inr (py_round (float_round (of_int (manhattan_distance l dst) / of_int (speed d)))))"
proof (cases "location d")
  case None
  then show ?thesis by (simp add: get_travel_time_def)
next
  case (Some l)
  have "\<bar>of_int (manhattan_distance l dst) :: rat\<bar> = of_int (manhattan_distance l dst)"
    using manhattan_distance_nonneg [of l dst] by simp
  with Some show ?thesis
    by (simp add: get_travel_time_def true_divide_cases)
qed

lemma travel_time_defined_iff:
  "travel_time_defined d dst \<longleftrightarrow> (\<exists>t. get_travel_time d dst = Inr t)"
  by (simp add: travel_time_defined_def get_travel_time_cases not_le split: option.splits)

lemma get_travel_time_defined:
  "travel_time_defined d dst \<Longrightarrow> location d = Some l \<Longrightarrow>
   get_travel_time d dst
     = Inr (py_round (float_round (of_int (manhattan_distance l dst) / of_int (speed d))))"
  by (simp add: travel_time_defined_def get_travel_time_cases not_le)

lemma get_travel_time_undefined:
  "\<not> travel_time_defined d dst \<Longrightarrow> \<exists>e. get_travel_time d dst = Inl e"
  by (auto simp: travel_time_defined_def get_travel_time_cases not_le split: option.splits)

lemma py_round_float_nonneg:
  "0 \<le> m \<Longrightarrow> 0 < s \<Longrightarrow> 0 \<le> py_round (float_round (of_int m / of_int s))"
  by (simp add: py_round_def round_half_even_nonneg float_round_nonneg)






text \<open>
  C8. The Manhattan distance of two locations is the sum of the absolute differences of
  their rows and columns, is non-negative and symmetric. \<^verbatim>\<open>get_travel_time\<close> raises
  AttributeError for a driver without a location. For a driver that has a location
  and a positive speed it raises OverflowError when the distance is at least
  \<open>2 ^ 1024 - 2 ^ 970\<close> times the speed, and otherwise returns Python's \<^verbatim>\<open>round\<close> of
  the float nearest to the distance divided by the speed: a non-negative integer, at
  most one half away from that float, which is in turn at most half a unit in its
  last place away from the exact quotient.
\<close>

theorem travel_time_round_nonneg:
  "manhattan_distance A B = \<bar>row A - row B\<bar> + \<bar>col A - col B\<bar>
   \<and> 0 \<le> manhattan_distance A B
   \<and> manhattan_distance A B = manhattan_distance B A
   \<and> (location d = None \<longrightarrow> get_travel_time d dst = Inl AttributeError)
   \<and> (location d = Some l \<and> 0 < speed d \<longrightarrow>
        get_travel_time d dst
          = (if (2 ^ 1024 - 2 ^ 970) * of_int (speed d)
                  \<le> (of_int (manhattan_distance l dst) :: rat)
             then Inl OverflowError
             else Inr (py_round (float_round
                    (of_int (manhattan_distance l dst) / of_int (speed d)))))
        \<and> 0 \<le> py_round (float_round (of_int (manhattan_distance l dst) / of_int (speed d)))
        \<and> \<bar>of_int (py_round (float_round
                (of_int (manhattan_distance l dst) / of_int (speed d))))
            - float_round (of_int (manhattan_distance l dst) / of_int (speed d))\<bar> \<le> 1 / 2
        \<and> \<bar>float_round (of_int (manhattan_distance l dst) / of_int (speed d))
            - of_int (manhattan_distance l dst) / of_int (speed d)\<bar>
             \<le> 2 powi (binade (of_int (manhattan_distance l dst) / of_int (speed d)) - 53))"
proof -
  let ?q = "of_int (manhattan_distance l dst) / of_int (speed d) :: rat"
  have def: "manhattan_distance A B = \<bar>row A - row B\<bar> + \<bar>col A - col B\<bar>"
    by (simp add: manhattan_distance_def)
  have sym: "manhattan_distance A B = manhattan_distance B A"
    by (simp add: manhattan_distance_def abs_minus_commute)
  have none: "location d = None \<longrightarrow> get_travel_time d dst = Inl AttributeError"
    by (simp add: get_travel_time_def)
  have t: "get_travel_time d dst
          = (if (2 ^ 1024 - 2 ^ 970) * of_int (speed d)
                  \<le> (of_int (manhattan_distance l dst) :: rat)
             then Inl OverflowError else Inr (py_round (float_round ?q)))"
    if "location d = Some l" "0 < speed d"
    using that by (simp add: get_travel_time_cases)
  have nn: "0 \<le> py_round (float_round ?q)" if "0 < speed d"
    using py_round_float_nonneg [OF manhattan_distance_nonneg that] .
  have near: "\<bar>of_int (py_round (float_round ?q)) - float_round ?q\<bar> \<le> 1 / 2"
    unfolding py_round_def by (rule round_half_even_nearest)
  have err: "\<bar>float_round ?q - ?q\<bar> \<le> 2 powi (binade ?q - 53)"
  proof (cases "?q = 0")
    case True
    have "float_round ?q - ?q = 0" by (simp only: True float_round_0 diff_self)
    then have "\<bar>float_round ?q - ?q\<bar> = 0" by (simp only: abs_zero)
    also have "(0 :: rat) \<le> 2 powi (binade ?q - 53)" by simp
    finally show ?thesis .
  next
    case False
    then show ?thesis by (rule float_round_error)
  qed
  show ?thesis
    using def manhattan_distance_nonneg [of A B] sym none t nn near err
    by blast
qed

theorem travel_time_round_nonneg_witness:
  "0 < speed (Driver_init ''D0'' \<lparr>row = 3, col = 5\<rparr> 3)
   \<and> location (Driver_init ''D0'' \<lparr>row = 3, col = 5\<rparr> 3) = Some \<lparr>row = 3, col = 5\<rparr>
   \<and> get_travel_time (Driver_init ''D0'' \<lparr>row = 3, col = 5\<rparr> 3) \<lparr>row = 7, col = 7\<rparr>
       = Inr (py_round (float_round (6 / 3)))
   \<and> py_round (float_round (6 / 3)) = 2
   \<and> manhattan_distance \<lparr>row = 3, col = 5\<rparr> \<lparr>row = 7, col = 7\<rparr> = 6
   \<and> manhattan_distance \<lparr>row = 7, col = 7\<rparr> \<lparr>row = 3, col = 5\<rparr> = 6"
  using travel_time_round_nonneg [of "\<lparr>row = 3, col = 5\<rparr>" "\<lparr>row = 7, col = 7\<rparr>"
      "Driver_init ''D0'' \<lparr>row = 3, col = 5\<rparr> 3" "\<lparr>row = 7, col = 7\<rparr>" "\<lparr>row = 3, col = 5\<rparr>"]
  by (simp add: Driver_init_def eval_travel)

text \<open>
  C8 as the spec words it, a result for every driver of positive speed and every
  destination, fails: a driver of speed 1 that is \<open>2 ^ 1024\<close> units away raises
  OverflowError, and a driver whose drive was ended while it had no destination has
  no location and raises AttributeError. The quotient that is rounded is the float
  one: a driver of speed 1 that is \<open>2 ^ 53 + 1\<close> units away takes \<open>2 ^ 53\<close>.
\<close>

theorem travel_time_raises_counterexample:
  "0 < speed (Driver_init ''D'' \<lparr>row = 0, col = 0\<rparr> 1)
   \<and> get_travel_time (Driver_init ''D'' \<lparr>row = 0, col = 0\<rparr> 1) \<lparr>row = 0, col = 2 ^ 1024\<rparr>
       = Inl OverflowError
   \<and> 0 < speed (end_drive (Driver_init ''D'' \<lparr>row = 0, col = 0\<rparr> 1))
   \<and> get_travel_time (end_drive (Driver_init ''D'' \<lparr>row = 0, col = 0\<rparr> 1)) \<lparr>row = 0, col = 1\<rparr>
       = Inl AttributeError
   \<and> get_travel_time (Driver_init ''D'' \<lparr>row = 0, col = 0\<rparr> 1) \<lparr>row = 0, col = 2 ^ 53 + 1\<rparr>
       = Inr (2 ^ 53)"
proof -
  have a: "get_travel_time (Driver_init ''D'' \<lparr>row = 0, col = 0\<rparr> 1) \<lparr>row = 0, col = 2 ^ 1024\<rparr>
       = Inl OverflowError"
    by (simp add: get_travel_time_cases Driver_init_def manhattan_distance_def)
  have b: "get_travel_time (end_drive (Driver_init ''D'' \<lparr>row = 0, col = 0\<rparr> 1)) \<lparr>row = 0, col = 1\<rparr>
       = Inl AttributeError"
    by (simp add: get_travel_time_def Driver_init_def end_drive_def)
  have bin: "binade 9007199254740993 = 53"
    by (rule binade_unique) simp_all
  have "round_half_even (9007199254740993 / 2) = 4503599627370496"
    using round_half_even_halfway [of "9007199254740993 / 2" 4503599627370496] by simp
  then have fr: "float_round 9007199254740993 = 9007199254740992"
    by (simp add: float_round_def bin)
  have c: "get_travel_time (Driver_init ''D'' \<lparr>row = 0, col = 0\<rparr> 1) \<lparr>row = 0, col = 2 ^ 53 + 1\<rparr>
       = Inr (2 ^ 53)"
    using fr
    by (simp add: get_travel_time_cases Driver_init_def manhattan_distance_def py_round_def
        round_half_even_def Let_def)
  show ?thesis using a b c by (simp add: Driver_init_def end_drive_def)
qed




section \<open>The dispatcher's choice of a driver\<close>

lemma chosen_Cons_skip:
  assumes "chosen h orig ds d" and "\<not> is_idle (h x)"
  shows "chosen h orig (x # ds) d"
proof -
  from assms(1) obtain pre post t where
    "ds = pre @ d # post" "is_idle (h d)" "get_travel_time (h d) orig = Inr t"
    "\<forall>x\<in>set pre. is_idle (h x) \<longrightarrow> (\<exists>u. get_travel_time (h x) orig = Inr u \<and> t < u)"
    "\<forall>x\<in>set post. is_idle (h x) \<longrightarrow> (\<exists>u. get_travel_time (h x) orig = Inr u \<and> t \<le> u)"
    unfolding chosen_def by blast
  then show ?thesis
    unfolding chosen_def using assms(2)
    by (intro exI [of _ "x # pre"] exI [of _ post] exI [of _ t]) simp
qed

lemma chosen_Cons_later:
  assumes "chosen h orig ds d" and "get_travel_time (h x) orig = Inr u"
    and "get_travel_time (h d) orig = Inr t" and "t < u"
  shows "chosen h orig (x # ds) d"
proof -
  from assms(1,3) obtain pre post where
    "ds = pre @ d # post" "is_idle (h d)"
    "\<forall>x\<in>set pre. is_idle (h x) \<longrightarrow> (\<exists>u. get_travel_time (h x) orig = Inr u \<and> t < u)"
    "\<forall>x\<in>set post. is_idle (h x) \<longrightarrow> (\<exists>u. get_travel_time (h x) orig = Inr u \<and> t \<le> u)"
    unfolding chosen_def by auto
  then show ?thesis
    unfolding chosen_def using assms(2,3,4)
    by (intro exI [of _ "x # pre"] exI [of _ post] exI [of _ t]) simp
qed

lemma chosen_Cons_head:
  assumes "is_idle (h x)" and "get_travel_time (h x) orig = Inr t"
    and "\<forall>y\<in>set ds. is_idle (h y) \<longrightarrow> (\<exists>u. get_travel_time (h y) orig = Inr u \<and> t \<le> u)"
  shows "chosen h orig (x # ds) x"
  unfolding chosen_def using assms
  by (intro exI [of _ "[]"] exI [of _ ds] exI [of _ t]) simp

text \<open>
  The loop invariant of the scan. From an accumulator \<open>c\<close> the scan either keeps
  \<open>c\<close>, and then no idle driver of the rest is strictly faster, or it ends on the
  chosen driver of the rest, which is strictly faster than \<open>c\<close>.
\<close>

lemma scan_drivers_Some:
  assumes "\<forall>x\<in>set ds. \<exists>u. get_travel_time (h x) orig = Inr u"
    and "get_travel_time (h c) orig = Inr t"
  shows "(scan_drivers h orig ds (Some c) = Inr (Some c)
            \<and> (\<forall>x\<in>set ds. is_idle (h x) \<longrightarrow> (\<exists>u. get_travel_time (h x) orig = Inr u \<and> t \<le> u)))
       \<or> (\<exists>d t'. scan_drivers h orig ds (Some c) = Inr (Some d) \<and> chosen h orig ds d
            \<and> get_travel_time (h d) orig = Inr t' \<and> t' < t)"
  using assms
proof (induction ds arbitrary: c t)
  case Nil
  then show ?case by simp
next
  case (Cons x ds)
  from Cons.prems(1) obtain u where u: "get_travel_time (h x) orig = Inr u" by auto
  from Cons.prems(1) have rest: "\<forall>x\<in>set ds. \<exists>u. get_travel_time (h x) orig = Inr u" by simp
  show ?case
  proof (cases "is_idle (h x)")
    case False
    have eq: "scan_drivers h orig (x # ds) (Some c) = scan_drivers h orig ds (Some c)"
      using False u by simp
    from Cons.IH [OF rest Cons.prems(2)] show ?thesis
      unfolding eq using False by (auto intro: chosen_Cons_skip)
  next
    case True
    show ?thesis
    proof (cases "u < t")
      case less: True
      have eq: "scan_drivers h orig (x # ds) (Some c) = scan_drivers h orig ds (Some x)"
        using True u less Cons.prems(2) by simp
      from Cons.IH [OF rest u] show ?thesis
      proof
        assume a: "scan_drivers h orig ds (Some x) = Inr (Some x)
            \<and> (\<forall>y\<in>set ds. is_idle (h y) \<longrightarrow> (\<exists>v. get_travel_time (h y) orig = Inr v \<and> u \<le> v))"
        then have "chosen h orig (x # ds) x"
          using True u by (intro chosen_Cons_head) auto
        then show ?thesis unfolding eq using a u less by blast
      next
        assume "\<exists>d t'. scan_drivers h orig ds (Some x) = Inr (Some d) \<and> chosen h orig ds d
            \<and> get_travel_time (h d) orig = Inr t' \<and> t' < u"
        then obtain d t' where d: "scan_drivers h orig ds (Some x) = Inr (Some d)"
          "chosen h orig ds d" "get_travel_time (h d) orig = Inr t'" "t' < u" by blast
        then have "chosen h orig (x # ds) d"
          using u by (intro chosen_Cons_later [where u = u and t = t']) auto
        then show ?thesis unfolding eq using d less by force
      qed
    next
      case geq: False
      have eq: "scan_drivers h orig (x # ds) (Some c) = scan_drivers h orig ds (Some c)"
        using True u geq Cons.prems(2) by simp
      from Cons.IH [OF rest Cons.prems(2)] show ?thesis
      proof
        assume a: "scan_drivers h orig ds (Some c) = Inr (Some c)
            \<and> (\<forall>y\<in>set ds. is_idle (h y) \<longrightarrow> (\<exists>v. get_travel_time (h y) orig = Inr v \<and> t \<le> v))"
        then show ?thesis unfolding eq using u geq by auto
      next
        assume "\<exists>d t'. scan_drivers h orig ds (Some c) = Inr (Some d) \<and> chosen h orig ds d
            \<and> get_travel_time (h d) orig = Inr t' \<and> t' < t"
        then obtain d t' where d: "scan_drivers h orig ds (Some c) = Inr (Some d)"
          "chosen h orig ds d" "get_travel_time (h d) orig = Inr t'" "t' < t" by blast
        then have "chosen h orig (x # ds) d"
          using u geq by (intro chosen_Cons_later [where u = u and t = t']) auto
        then show ?thesis unfolding eq using d by blast
      qed
    qed
  qed
qed

lemma scan_drivers_None:
  assumes "\<forall>x\<in>set ds. \<exists>u. get_travel_time (h x) orig = Inr u"
  shows "(scan_drivers h orig ds None = Inr None \<and> (\<forall>x\<in>set ds. \<not> is_idle (h x)))
       \<or> (\<exists>d. scan_drivers h orig ds None = Inr (Some d) \<and> chosen h orig ds d)"
  using assms
proof (induction ds)
  case Nil
  then show ?case by simp
next
  case (Cons x ds)
  from Cons.prems obtain u where u: "get_travel_time (h x) orig = Inr u" by auto
  from Cons.prems have rest: "\<forall>x\<in>set ds. \<exists>u. get_travel_time (h x) orig = Inr u" by simp
  show ?case
  proof (cases "is_idle (h x)")
    case False
    have eq: "scan_drivers h orig (x # ds) None = scan_drivers h orig ds None"
      using False u by simp
    from Cons.IH [OF rest] show ?thesis
      unfolding eq using False by (auto intro: chosen_Cons_skip)
  next
    case True
    have eq: "scan_drivers h orig (x # ds) None = scan_drivers h orig ds (Some x)"
      using True u by simp
    from scan_drivers_Some [OF rest u] show ?thesis
    proof
      assume a: "scan_drivers h orig ds (Some x) = Inr (Some x)
            \<and> (\<forall>y\<in>set ds. is_idle (h y) \<longrightarrow> (\<exists>v. get_travel_time (h y) orig = Inr v \<and> u \<le> v))"
      then have "chosen h orig (x # ds) x"
        using True u by (intro chosen_Cons_head) auto
      then show ?thesis unfolding eq using a by blast
    next
      assume "\<exists>d t'. scan_drivers h orig ds (Some x) = Inr (Some d) \<and> chosen h orig ds d
            \<and> get_travel_time (h d) orig = Inr t' \<and> t' < u"
      then obtain d t' where d: "scan_drivers h orig ds (Some x) = Inr (Some d)"
        "chosen h orig ds d" "get_travel_time (h d) orig = Inr t'" "t' < u" by blast
      then have "chosen h orig (x # ds) d"
        using u by (intro chosen_Cons_later [where u = u and t = t']) auto
      then show ?thesis unfolding eq using d by blast
    qed
  qed
qed

lemma get_travel_time_update [simp]:
  "get_travel_time (d\<lparr>is_idle := b, destination := x\<rparr>) dst = get_travel_time d dst"
  "get_travel_time (d\<lparr>destination := x, is_idle := b\<rparr>) dst = get_travel_time d dst"
  by (simp_all add: get_travel_time_def split: option.splits)

lemma scan_drivers_raises:
  assumes "\<forall>y\<in>set pre. \<exists>u. get_travel_time (h y) orig = Inr u"
    and "get_travel_time (h x) orig = Inl e"
    and "\<forall>c. temp = Some c \<longrightarrow> (\<exists>u. get_travel_time (h c) orig = Inr u)"
  shows "scan_drivers h orig (pre @ x # post) temp = Inl e"
  using assms
proof (induction pre arbitrary: temp)
  case Nil
  then show ?case by simp
next
  case (Cons y pre)
  from Cons.prems(1) obtain u where u: "get_travel_time (h y) orig = Inr u" by auto
  from Cons.prems(1) have rest: "\<forall>y\<in>set pre. \<exists>u. get_travel_time (h y) orig = Inr u"
    by simp
  show ?case
  proof (cases "is_idle (h y)")
    case False
    then show ?thesis
      using u Cons.IH [OF rest Cons.prems(2) Cons.prems(3)] by simp
  next
    case True
    let ?c = "case temp of None \<Rightarrow> y | Some t \<Rightarrow> t"
    obtain b where b: "get_travel_time (h ?c) orig = Inr b"
      using u Cons.prems(3) by (cases temp) auto
    have "\<forall>c. Some (if u < b then y else ?c) = Some c
            \<longrightarrow> (\<exists>u. get_travel_time (h c) orig = Inr u)"
      using u b by auto
    from Cons.IH [OF rest Cons.prems(2) this] show ?thesis
      using True u b by (simp add: Let_def)
  qed
qed

lemma request_driver_raises:
  assumes "drivers (dispatcher w) = pre @ x # post"
    and "\<forall>y\<in>set pre. travel_time_defined (driver_heap w y) (origin (rider_heap w rider))"
    and "get_travel_time (driver_heap w x) (origin (rider_heap w rider)) = Inl e"
  shows "request_driver rider w = (w, Inl e)"
proof -
  have "scan_drivers (driver_heap w) (origin (rider_heap w rider)) (pre @ x # post) None = Inl e"
    using assms(2,3) by (intro scan_drivers_raises) (simp_all add: travel_time_defined_iff)
  then show ?thesis
    using assms(1) by (simp add: request_driver_def)
qed

lemma request_driver_cases:
  assumes "\<forall>x\<in>set (drivers (dispatcher w)).
             travel_time_defined (driver_heap w x) (origin (rider_heap w rider))"
  shows "((\<forall>x\<in>set (drivers (dispatcher w)). \<not> is_idle (driver_heap w x))
          \<and> request_driver rider w
              = (set_waiting (waiting_rider (dispatcher w) @ [rider]) w, Inr None))
       \<or> (\<exists>d. chosen (driver_heap w) (origin (rider_heap w rider)) (drivers (dispatcher w)) d
          \<and> request_driver rider w
              = (set_driver d ((driver_heap w d)\<lparr>is_idle := False,
                     destination := Some (origin (rider_heap w rider))\<rparr>) w, Inr (Some d)))"
proof (cases "drivers (dispatcher w) = []")
  case True
  then show ?thesis by (simp add: request_driver_def)
next
  case False
  have "\<forall>x\<in>set (drivers (dispatcher w)).
          \<exists>u. get_travel_time (driver_heap w x) (origin (rider_heap w rider)) = Inr u"
    using assms by (simp add: travel_time_defined_iff)
  from scan_drivers_None [OF this] show ?thesis
    using False by (auto simp: request_driver_def)
qed

lemma chosen_idle_member: "chosen h orig ds d \<Longrightarrow> d \<in> set ds \<and> is_idle (h d)"
  by (auto simp: chosen_def)

text \<open>
  C1. In a dispatcher state where \<^verbatim>\<open>get_travel_time\<close> to the rider's origin returns
  for every registered driver (\<open>travel_time_defined\<close>), \<^verbatim>\<open>request_driver\<close> returns a
  driver exactly when some registered driver is idle. The driver returned was idle at
  the call, has the least travel time to the rider's origin among the idle registered
  drivers and is the earliest registered of those (\<open>chosen\<close>); the only change of
  state is that this driver becomes non-idle with the rider's origin as destination,
  so the waiting queue is as before. When no driver is returned (none registered, or
  none idle) the only change of state is that the rider is appended at the tail of
  the waiting queue. In every other state the call raises and leaves the state as it
  was: with \<open>x\<close> the first registered driver, idle or not, on which
  \<^verbatim>\<open>get_travel_time\<close> raises, the call raises that error.
\<close>

theorem request_driver_nearest_idle:
  "((\<forall>x\<in>set (drivers (dispatcher w)).
        travel_time_defined (driver_heap w x) (origin (rider_heap w rider))) \<longrightarrow>
      ((\<exists>d. snd (request_driver rider w) = Inr (Some d))
          \<longleftrightarrow> (\<exists>x\<in>set (drivers (dispatcher w)). is_idle (driver_heap w x)))
      \<and> (\<forall>d. snd (request_driver rider w) = Inr (Some d) \<longrightarrow>
            chosen (driver_heap w) (origin (rider_heap w rider)) (drivers (dispatcher w)) d
            \<and> fst (request_driver rider w)
                = set_driver d ((driver_heap w d)\<lparr>is_idle := False,
                    destination := Some (origin (rider_heap w rider))\<rparr>) w)
      \<and> ((\<forall>d. snd (request_driver rider w) \<noteq> Inr (Some d)) \<longrightarrow>
            request_driver rider w
              = (set_waiting (waiting_rider (dispatcher w) @ [rider]) w, Inr None)))
   \<and> (\<forall>pre x post.
        drivers (dispatcher w) = pre @ x # post
        \<and> (\<forall>y\<in>set pre. travel_time_defined (driver_heap w y) (origin (rider_heap w rider)))
        \<and> \<not> travel_time_defined (driver_heap w x) (origin (rider_heap w rider)) \<longrightarrow>
        (\<exists>e. get_travel_time (driver_heap w x) (origin (rider_heap w rider)) = Inl e
           \<and> request_driver rider w = (w, Inl e)))
   \<and> (\<not> (\<forall>x\<in>set (drivers (dispatcher w)).
            travel_time_defined (driver_heap w x) (origin (rider_heap w rider))) \<longrightarrow>
        (\<exists>e. request_driver rider w = (w, Inl e)))"
proof (intro conjI impI allI)
  assume wf: "\<forall>x\<in>set (drivers (dispatcher w)).
        travel_time_defined (driver_heap w x) (origin (rider_heap w rider))"
  have "((\<exists>d. snd (request_driver rider w) = Inr (Some d))
            \<longleftrightarrow> (\<exists>x\<in>set (drivers (dispatcher w)). is_idle (driver_heap w x)))
       \<and> (\<forall>d. snd (request_driver rider w) = Inr (Some d) \<longrightarrow>
             chosen (driver_heap w) (origin (rider_heap w rider)) (drivers (dispatcher w)) d
             \<and> fst (request_driver rider w)
                 = set_driver d ((driver_heap w d)\<lparr>is_idle := False,
                     destination := Some (origin (rider_heap w rider))\<rparr>) w)
       \<and> ((\<forall>d. snd (request_driver rider w) \<noteq> Inr (Some d)) \<longrightarrow>
             request_driver rider w
               = (set_waiting (waiting_rider (dispatcher w) @ [rider]) w, Inr None))"
    using request_driver_cases [OF wf]
  proof
    assume a: "(\<forall>x\<in>set (drivers (dispatcher w)). \<not> is_idle (driver_heap w x))
          \<and> request_driver rider w
              = (set_waiting (waiting_rider (dispatcher w) @ [rider]) w, Inr None)"
    then show ?thesis by simp
  next
    assume "\<exists>d. chosen (driver_heap w) (origin (rider_heap w rider)) (drivers (dispatcher w)) d
          \<and> request_driver rider w
              = (set_driver d ((driver_heap w d)\<lparr>is_idle := False,
                     destination := Some (origin (rider_heap w rider))\<rparr>) w, Inr (Some d))"
    then obtain d where d: "chosen (driver_heap w) (origin (rider_heap w rider)) (drivers (dispatcher w)) d"
      "request_driver rider w
              = (set_driver d ((driver_heap w d)\<lparr>is_idle := False,
                     destination := Some (origin (rider_heap w rider))\<rparr>) w, Inr (Some d))"
      by blast
    from chosen_idle_member [OF d(1)] d show ?thesis by auto
  qed
  then show "(\<exists>d. snd (request_driver rider w) = Inr (Some d))
            \<longleftrightarrow> (\<exists>x\<in>set (drivers (dispatcher w)). is_idle (driver_heap w x))"
    and "\<And>d. snd (request_driver rider w) = Inr (Some d) \<Longrightarrow>
             chosen (driver_heap w) (origin (rider_heap w rider)) (drivers (dispatcher w)) d"
    and "\<And>d. snd (request_driver rider w) = Inr (Some d) \<Longrightarrow> fst (request_driver rider w)
                 = set_driver d ((driver_heap w d)\<lparr>is_idle := False,
                     destination := Some (origin (rider_heap w rider))\<rparr>) w"
    and "\<forall>d. snd (request_driver rider w) \<noteq> Inr (Some d) \<Longrightarrow>
             request_driver rider w
               = (set_waiting (waiting_rider (dispatcher w) @ [rider]) w, Inr None)"
    by blast+
next
  fix pre x post
  assume a: "drivers (dispatcher w) = pre @ x # post
        \<and> (\<forall>y\<in>set pre. travel_time_defined (driver_heap w y) (origin (rider_heap w rider)))
        \<and> \<not> travel_time_defined (driver_heap w x) (origin (rider_heap w rider))"
  then obtain e where e: "get_travel_time (driver_heap w x) (origin (rider_heap w rider)) = Inl e"
    using get_travel_time_undefined by blast
  from a e request_driver_raises [of w pre x post rider e]
  show "\<exists>e. get_travel_time (driver_heap w x) (origin (rider_heap w rider)) = Inl e
           \<and> request_driver rider w = (w, Inl e)"
    by blast
next
  assume "\<not> (\<forall>x\<in>set (drivers (dispatcher w)).
            travel_time_defined (driver_heap w x) (origin (rider_heap w rider)))"
  then have "\<exists>x\<in>set (drivers (dispatcher w)).
            \<not> travel_time_defined (driver_heap w x) (origin (rider_heap w rider))"
    by blast
  from split_list_first_prop [OF this] obtain pre x post where
    d: "drivers (dispatcher w) = pre @ x # post"
      "\<not> travel_time_defined (driver_heap w x) (origin (rider_heap w rider))"
      "\<forall>y\<in>set pre. travel_time_defined (driver_heap w y) (origin (rider_heap w rider))"
    by auto
  from get_travel_time_undefined [OF d(2)] obtain e where
    "get_travel_time (driver_heap w x) (origin (rider_heap w rider)) = Inl e" by blast
  from request_driver_raises [OF d(1) d(3) this]
  show "\<exists>e. request_driver rider w = (w, Inl e)" by blast
qed

theorem request_driver_nearest_idle_witness:
  "drivers (dispatcher tie_world) = [0, 1]
   \<and> travel_time_defined (driver_heap tie_world 0) (origin (rider_heap tie_world 0))
   \<and> travel_time_defined (driver_heap tie_world 1) (origin (rider_heap tie_world 0))
   \<and> snd (request_driver 0 tie_world) = Inr (Some 0)
   \<and> chosen (driver_heap tie_world) (origin (rider_heap tie_world 0))
        (drivers (dispatcher tie_world)) 0
   \<and> drivers (dispatcher queue_world) = []
   \<and> request_driver 1 queue_world = (set_waiting [1] queue_world, Inr None)
   \<and> drivers (dispatcher zero_speed_world) = [] @ 0 # []
   \<and> \<not> travel_time_defined (driver_heap zero_speed_world 0)
          (origin (rider_heap zero_speed_world 0))
   \<and> request_driver 0 zero_speed_world = (zero_speed_world, Inl ZeroDivisionError)"
proof -
  have vals: "drivers (dispatcher tie_world) = [0, 1]"
    "travel_time_defined (driver_heap tie_world 0) (origin (rider_heap tie_world 0))"
    "travel_time_defined (driver_heap tie_world 1) (origin (rider_heap tie_world 0))"
    by (simp_all add: tie_world_def Driver_init_def Rider_init_def travel_time_defined_def
        manhattan_distance_def)
  then have wf: "\<forall>x\<in>set (drivers (dispatcher tie_world)).
       travel_time_defined (driver_heap tie_world x) (origin (rider_heap tie_world 0))"
    by simp
  have res: "snd (request_driver 0 tie_world) = Inr (Some 0)"
    by (simp add: tie_world_def request_driver_def Driver_init_def Rider_init_def
        get_travel_time_def eval_travel)
  have q: "drivers (dispatcher queue_world) = []" "waiting_rider (dispatcher queue_world) = []"
    by (simp_all add: queue_world_def Dispatcher_init_def)
  have none: "request_driver 1 queue_world = (set_waiting [1] queue_world, Inr None)"
    using request_driver_nearest_idle [of queue_world 1] q by simp
  have z: "drivers (dispatcher zero_speed_world) = [] @ 0 # []"
    "\<not> travel_time_defined (driver_heap zero_speed_world 0)
          (origin (rider_heap zero_speed_world 0))"
    "get_travel_time (driver_heap zero_speed_world 0)
          (origin (rider_heap zero_speed_world 0)) = Inl ZeroDivisionError"
    by (simp_all add: zero_speed_world_def Driver_init_def Rider_init_def
        travel_time_defined_def get_travel_time_def true_divide_def)
  have raise: "request_driver 0 zero_speed_world = (zero_speed_world, Inl ZeroDivisionError)"
    using request_driver_nearest_idle [of zero_speed_world 0] z by fastforce
  from request_driver_nearest_idle [of tie_world 0] wf res vals q(1) none z(1,2) raise
  show ?thesis by blast
qed

text \<open>
  C1 as the spec words it, for every dispatcher state, fails: with an idle registered
  driver of speed 0 the scan divides by zero, no driver is returned and the rider is
  not enqueued.
\<close>

theorem request_driver_zero_speed_counterexample:
  "is_idle (driver_heap zero_speed_world 0)
   \<and> request_driver 0 zero_speed_world = (zero_speed_world, Inl ZeroDivisionError)"
  by (simp add: zero_speed_world_def request_driver_def Driver_init_def Rider_init_def
        get_travel_time_def true_divide_def)

section \<open>Rider requests\<close>

lemma request_driver_notify:
  "request_driver rider (notify t a k i l w)
     = (notify t a k i l (fst (request_driver rider w)), snd (request_driver rider w))"
  by (simp add: request_driver_def notify_def set_waiting_def set_driver_def
      split: sum.splits option.splits)

text \<open>
  C5. In a state where \<^verbatim>\<open>get_travel_time\<close> to the rider's origin returns for every
  registered driver (\<open>travel_time_defined\<close>), executing \<^verbatim>\<open>RiderRequest(t, rider)\<close>
  returns events, and the Cancellation of the rider at \<open>t + patience\<close> is among them.
  If no registered driver is idle it is the only one. If one is, the dispatcher's
  chosen driver is matched: the events are one Pickup at \<open>t\<close> plus the travel time,
  Python's \<^verbatim>\<open>round\<close> of the float nearest to the distance from the driver's location
  to the rider's origin divided by the driver's speed, followed by the Cancellation,
  and the driver is non-idle with the rider's origin as destination. In every other
  state the execution raises and returns no event: with \<open>x\<close> the first registered
  driver on which \<^verbatim>\<open>get_travel_time\<close> raises, it raises that error after the request
  has been reported to the monitor.
\<close>

theorem rider_request_events:
  "((\<forall>x\<in>set (drivers (dispatcher w)).
        travel_time_defined (driver_heap w x) (origin (rider_heap w rider))) \<longrightarrow>
      (\<exists>evs. snd (do (RiderRequest t rider) w) = Inr evs
            \<and> Cancellation (t + patience (rider_heap w rider)) rider \<in> set evs)
      \<and> ((\<forall>x\<in>set (drivers (dispatcher w)). \<not> is_idle (driver_heap w x)) \<longrightarrow>
            snd (do (RiderRequest t rider) w)
              = Inr [Cancellation (t + patience (rider_heap w rider)) rider])
      \<and> ((\<exists>x\<in>set (drivers (dispatcher w)). is_idle (driver_heap w x)) \<longrightarrow>
            (\<exists>driver l.
               chosen (driver_heap w) (origin (rider_heap w rider)) (drivers (dispatcher w)) driver
               \<and> location (driver_heap w driver) = Some l
               \<and> snd (do (RiderRequest t rider) w)
                   = Inr [Pickup (t + py_round (float_round
                                    (of_int (manhattan_distance l (origin (rider_heap w rider)))
                                      / of_int (speed (driver_heap w driver))))) rider driver,
                          Cancellation (t + patience (rider_heap w rider)) rider]
               \<and> \<not> is_idle (driver_heap (fst (do (RiderRequest t rider) w)) driver)
               \<and> destination (driver_heap (fst (do (RiderRequest t rider) w)) driver)
                   = Some (origin (rider_heap w rider)))))
   \<and> (\<forall>pre x post.
        drivers (dispatcher w) = pre @ x # post
        \<and> (\<forall>y\<in>set pre. travel_time_defined (driver_heap w y) (origin (rider_heap w rider)))
        \<and> \<not> travel_time_defined (driver_heap w x) (origin (rider_heap w rider)) \<longrightarrow>
        (\<exists>e. get_travel_time (driver_heap w x) (origin (rider_heap w rider)) = Inl e
           \<and> do (RiderRequest t rider) w
               = (notify t RIDER REQUEST (rider_id (rider_heap w rider))
                    (Some (origin (rider_heap w rider))) w, Inl e)))
   \<and> (\<not> (\<forall>x\<in>set (drivers (dispatcher w)).
            travel_time_defined (driver_heap w x) (origin (rider_heap w rider))) \<longrightarrow>
        (\<exists>e. do (RiderRequest t rider) w
               = (notify t RIDER REQUEST (rider_id (rider_heap w rider))
                    (Some (origin (rider_heap w rider))) w, Inl e)))"
proof (intro conjI)
  show "(\<forall>x\<in>set (drivers (dispatcher w)).
        travel_time_defined (driver_heap w x) (origin (rider_heap w rider))) \<longrightarrow>
      (\<exists>evs. snd (do (RiderRequest t rider) w) = Inr evs
            \<and> Cancellation (t + patience (rider_heap w rider)) rider \<in> set evs)
      \<and> ((\<forall>x\<in>set (drivers (dispatcher w)). \<not> is_idle (driver_heap w x)) \<longrightarrow>
            snd (do (RiderRequest t rider) w)
              = Inr [Cancellation (t + patience (rider_heap w rider)) rider])
      \<and> ((\<exists>x\<in>set (drivers (dispatcher w)). is_idle (driver_heap w x)) \<longrightarrow>
            (\<exists>driver l.
               chosen (driver_heap w) (origin (rider_heap w rider)) (drivers (dispatcher w)) driver
               \<and> location (driver_heap w driver) = Some l
               \<and> snd (do (RiderRequest t rider) w)
                   = Inr [Pickup (t + py_round (float_round
                                    (of_int (manhattan_distance l (origin (rider_heap w rider)))
                                      / of_int (speed (driver_heap w driver))))) rider driver,
                          Cancellation (t + patience (rider_heap w rider)) rider]
               \<and> \<not> is_idle (driver_heap (fst (do (RiderRequest t rider) w)) driver)
               \<and> destination (driver_heap (fst (do (RiderRequest t rider) w)) driver)
                   = Some (origin (rider_heap w rider))))"
  proof
    assume wf: "\<forall>x\<in>set (drivers (dispatcher w)).
        travel_time_defined (driver_heap w x) (origin (rider_heap w rider))"
    from request_driver_cases [OF wf]
    show "(\<exists>evs. snd (do (RiderRequest t rider) w) = Inr evs
            \<and> Cancellation (t + patience (rider_heap w rider)) rider \<in> set evs)
      \<and> ((\<forall>x\<in>set (drivers (dispatcher w)). \<not> is_idle (driver_heap w x)) \<longrightarrow>
            snd (do (RiderRequest t rider) w)
              = Inr [Cancellation (t + patience (rider_heap w rider)) rider])
      \<and> ((\<exists>x\<in>set (drivers (dispatcher w)). is_idle (driver_heap w x)) \<longrightarrow>
            (\<exists>driver l.
               chosen (driver_heap w) (origin (rider_heap w rider)) (drivers (dispatcher w)) driver
               \<and> location (driver_heap w driver) = Some l
               \<and> snd (do (RiderRequest t rider) w)
                   = Inr [Pickup (t + py_round (float_round
                                    (of_int (manhattan_distance l (origin (rider_heap w rider)))
                                      / of_int (speed (driver_heap w driver))))) rider driver,
                          Cancellation (t + patience (rider_heap w rider)) rider]
               \<and> \<not> is_idle (driver_heap (fst (do (RiderRequest t rider) w)) driver)
               \<and> destination (driver_heap (fst (do (RiderRequest t rider) w)) driver)
                   = Some (origin (rider_heap w rider))))"
    proof
      assume a: "(\<forall>x\<in>set (drivers (dispatcher w)). \<not> is_idle (driver_heap w x))
          \<and> request_driver rider w
              = (set_waiting (waiting_rider (dispatcher w) @ [rider]) w, Inr None)"
      then have "snd (do (RiderRequest t rider) w)
              = Inr [Cancellation (t + patience (rider_heap w rider)) rider]"
        by (simp add: RiderRequest_do_def request_driver_notify)
      with a show ?thesis by simp
    next
      assume "\<exists>d. chosen (driver_heap w) (origin (rider_heap w rider)) (drivers (dispatcher w)) d
          \<and> request_driver rider w
              = (set_driver d ((driver_heap w d)\<lparr>is_idle := False,
                     destination := Some (origin (rider_heap w rider))\<rparr>) w, Inr (Some d))"
      then obtain d where d: "chosen (driver_heap w) (origin (rider_heap w rider)) (drivers (dispatcher w)) d"
        "request_driver rider w
              = (set_driver d ((driver_heap w d)\<lparr>is_idle := False,
                     destination := Some (origin (rider_heap w rider))\<rparr>) w, Inr (Some d))"
        by blast
      from chosen_idle_member [OF d(1)] have mem: "d \<in> set (drivers (dispatcher w))"
        and idle: "is_idle (driver_heap w d)" by simp_all
      from mem wf have df: "travel_time_defined (driver_heap w d) (origin (rider_heap w rider))"
        by simp
      then obtain l where l: "location (driver_heap w d) = Some l"
        by (cases "location (driver_heap w d)") (simp_all add: travel_time_defined_def)
      have tt: "get_travel_time (driver_heap w d) (origin (rider_heap w rider))
          = Inr (py_round (float_round
                   (of_int (manhattan_distance l (origin (rider_heap w rider)))
                     / of_int (speed (driver_heap w d)))))"
        using get_travel_time_defined [OF df l] .
      have ev: "snd (do (RiderRequest t rider) w)
          = Inr [Pickup (t + py_round (float_round
                           (of_int (manhattan_distance l (origin (rider_heap w rider)))
                             / of_int (speed (driver_heap w d))))) rider d,
                 Cancellation (t + patience (rider_heap w rider)) rider]"
        using d(2) tt
        by (simp add: RiderRequest_do_def request_driver_notify start_drive_def Let_def)
      have st: "\<not> is_idle (driver_heap (fst (do (RiderRequest t rider) w)) d)
          \<and> destination (driver_heap (fst (do (RiderRequest t rider) w)) d)
              = Some (origin (rider_heap w rider))"
        using d(2) tt
        by (simp add: RiderRequest_do_def request_driver_notify start_drive_def Let_def)
      show ?thesis
        using d(1) l ev st mem idle by auto
    qed
  qed
next
  show "\<forall>pre x post.
        drivers (dispatcher w) = pre @ x # post
        \<and> (\<forall>y\<in>set pre. travel_time_defined (driver_heap w y) (origin (rider_heap w rider)))
        \<and> \<not> travel_time_defined (driver_heap w x) (origin (rider_heap w rider)) \<longrightarrow>
        (\<exists>e. get_travel_time (driver_heap w x) (origin (rider_heap w rider)) = Inl e
           \<and> do (RiderRequest t rider) w
               = (notify t RIDER REQUEST (rider_id (rider_heap w rider))
                    (Some (origin (rider_heap w rider))) w, Inl e))"
  proof (intro allI impI)
    fix pre x post
    assume a: "drivers (dispatcher w) = pre @ x # post
        \<and> (\<forall>y\<in>set pre. travel_time_defined (driver_heap w y) (origin (rider_heap w rider)))
        \<and> \<not> travel_time_defined (driver_heap w x) (origin (rider_heap w rider))"
    then obtain e where e: "get_travel_time (driver_heap w x) (origin (rider_heap w rider)) = Inl e"
      using get_travel_time_undefined by blast
    have "request_driver rider w = (w, Inl e)"
      using a e request_driver_raises [of w pre x post rider e] by blast
    then have "do (RiderRequest t rider) w
               = (notify t RIDER REQUEST (rider_id (rider_heap w rider))
                    (Some (origin (rider_heap w rider))) w, Inl e)"
      by (simp add: RiderRequest_do_def request_driver_notify)
    with e show "\<exists>e. get_travel_time (driver_heap w x) (origin (rider_heap w rider)) = Inl e
           \<and> do (RiderRequest t rider) w
               = (notify t RIDER REQUEST (rider_id (rider_heap w rider))
                    (Some (origin (rider_heap w rider))) w, Inl e)"
      by blast
  qed
next
  show "\<not> (\<forall>x\<in>set (drivers (dispatcher w)).
            travel_time_defined (driver_heap w x) (origin (rider_heap w rider))) \<longrightarrow>
        (\<exists>e. do (RiderRequest t rider) w
               = (notify t RIDER REQUEST (rider_id (rider_heap w rider))
                    (Some (origin (rider_heap w rider))) w, Inl e))"
  proof
    assume "\<not> (\<forall>x\<in>set (drivers (dispatcher w)).
            travel_time_defined (driver_heap w x) (origin (rider_heap w rider)))"
    then have "\<exists>x\<in>set (drivers (dispatcher w)).
            \<not> travel_time_defined (driver_heap w x) (origin (rider_heap w rider))"
      by blast
    from split_list_first_prop [OF this] obtain pre x post where
      d: "drivers (dispatcher w) = pre @ x # post"
        "\<not> travel_time_defined (driver_heap w x) (origin (rider_heap w rider))"
        "\<forall>y\<in>set pre. travel_time_defined (driver_heap w y) (origin (rider_heap w rider))"
      by auto
    from get_travel_time_undefined [OF d(2)] obtain e where
      "get_travel_time (driver_heap w x) (origin (rider_heap w rider)) = Inl e" by blast
    from request_driver_raises [OF d(1) d(3) this]
    have "do (RiderRequest t rider) w
               = (notify t RIDER REQUEST (rider_id (rider_heap w rider))
                    (Some (origin (rider_heap w rider))) w, Inl e)"
      by (simp add: RiderRequest_do_def request_driver_notify)
    then show "\<exists>e. do (RiderRequest t rider) w
               = (notify t RIDER REQUEST (rider_id (rider_heap w rider))
                    (Some (origin (rider_heap w rider))) w, Inl e)"
      by blast
  qed
qed

theorem rider_request_events_witness:
  "drivers (dispatcher tie_world) = [0, 1]
   \<and> travel_time_defined (driver_heap tie_world 0) (origin (rider_heap tie_world 0))
   \<and> travel_time_defined (driver_heap tie_world 1) (origin (rider_heap tie_world 0))
   \<and> is_idle (driver_heap tie_world 0)
   \<and> Cancellation 12 0 \<in> set (projr (snd (do (RiderRequest 7 0) tie_world)))
   \<and> snd (do (RiderRequest 7 0) tie_world) = Inr [Pickup 8 0 0, Cancellation 12 0]
   \<and> drivers (dispatcher queue_world) = []
   \<and> snd (do (RiderRequest 7 1) queue_world) = Inr [Cancellation 12 1]
   \<and> drivers (dispatcher zero_speed_world) = [] @ 0 # []
   \<and> \<not> travel_time_defined (driver_heap zero_speed_world 0)
          (origin (rider_heap zero_speed_world 0))
   \<and> do (RiderRequest 7 0) zero_speed_world
       = (notify 7 RIDER REQUEST ''R'' (Some \<lparr>row = 0, col = 1\<rparr>) zero_speed_world,
          Inl ZeroDivisionError)"
proof -
  have vals: "drivers (dispatcher tie_world) = [0, 1]"
    "travel_time_defined (driver_heap tie_world 0) (origin (rider_heap tie_world 0))"
    "travel_time_defined (driver_heap tie_world 1) (origin (rider_heap tie_world 0))"
    "is_idle (driver_heap tie_world 0)"
    by (simp_all add: tie_world_def Driver_init_def Rider_init_def travel_time_defined_def
        manhattan_distance_def)
  then have wf: "\<forall>x\<in>set (drivers (dispatcher tie_world)).
       travel_time_defined (driver_heap tie_world x) (origin (rider_heap tie_world 0))"
    by simp
  have idle: "\<exists>x\<in>set (drivers (dispatcher tie_world)). is_idle (driver_heap tie_world x)"
    by (auto simp: tie_world_def Driver_init_def)
  have pat: "patience (rider_heap tie_world 0) = 5"
    by (simp add: tie_world_def Rider_init_def)
  from rider_request_events [of tie_world 0 7] wf pat idle have a:
    "Cancellation 12 0 \<in> set (projr (snd (do (RiderRequest 7 0) tie_world)))"
    by auto
  have a': "snd (do (RiderRequest 7 0) tie_world) = Inr [Pickup 8 0 0, Cancellation 12 0]"
    by (simp add: tie_world_def RiderRequest_do_def request_driver_def start_drive_def
        Driver_init_def Rider_init_def get_travel_time_def eval_travel notify_def
        set_driver_def)
  have q: "drivers (dispatcher queue_world) = []"
    "patience (rider_heap queue_world 1) = 5"
    by (simp_all add: queue_world_def Dispatcher_init_def Rider_init_def)
  have b: "snd (do (RiderRequest 7 1) queue_world) = Inr [Cancellation 12 1]"
    using rider_request_events [of queue_world 1 7] q by simp
  have z: "drivers (dispatcher zero_speed_world) = [] @ 0 # []"
    "\<not> travel_time_defined (driver_heap zero_speed_world 0)
          (origin (rider_heap zero_speed_world 0))"
    "get_travel_time (driver_heap zero_speed_world 0)
          (origin (rider_heap zero_speed_world 0)) = Inl ZeroDivisionError"
    "rider_id (rider_heap zero_speed_world 0) = ''R''"
    "origin (rider_heap zero_speed_world 0) = \<lparr>row = 0, col = 1\<rparr>"
    by (simp_all add: zero_speed_world_def Driver_init_def Rider_init_def
        travel_time_defined_def get_travel_time_def true_divide_def)
  have c: "do (RiderRequest 7 0) zero_speed_world
       = (notify 7 RIDER REQUEST ''R'' (Some \<lparr>row = 0, col = 1\<rparr>) zero_speed_world,
          Inl ZeroDivisionError)"
    using rider_request_events [of zero_speed_world 0 7] z by fastforce
  from a a' b c vals q(1) z(1,2) show ?thesis by blast
qed

text \<open>
  C5 as the spec words it, for every execution, fails: with a registered driver of
  speed 0 the request raises ZeroDivisionError and no Cancellation is returned.
\<close>

theorem rider_request_zero_speed_counterexample:
  "snd (do (RiderRequest 7 0) zero_speed_world) = Inl ZeroDivisionError"
  by (simp add: zero_speed_world_def RiderRequest_do_def request_driver_def Driver_init_def
      Rider_init_def get_travel_time_def true_divide_def notify_def)

section \<open>Registration, the waiting queue and the driver invariant\<close>

lemma check_new_iff:
  "check_new h driver ds truth
     \<longleftrightarrow> truth \<and> (\<forall>u\<in>set ds. driver_id (h driver) \<noteq> driver_id (h u))"
  by (induction ds arbitrary: truth) auto

lemma register_driver_simps [simp]:
  "driver_heap (register_driver d w) = driver_heap w"
  "rider_heap (register_driver d w) = rider_heap w"
  "waiting_rider (dispatcher (register_driver d w)) = waiting_rider (dispatcher w)"
  "monitor (register_driver d w) = monitor w"
  by (simp_all add: register_driver_def)

lemma register_driver_drivers:
  "drivers (dispatcher (register_driver d w))
     = (if \<exists>u\<in>set (drivers (dispatcher w)). driver_id (driver_heap w u) = driver_id (driver_heap w d)
        then drivers (dispatcher w) else drivers (dispatcher w) @ [d])"
  by (auto simp: register_driver_def check_new_iff)

lemma list_remove_member:
  "\<exists>y\<in>set q. rider_id (h y) = rider_id (h x) \<Longrightarrow>
   \<exists>q'. list_remove h x q = Inr q' \<and> Suc (length q') = length q"
  by (induction q) fastforce+

lemma list_remove_head: "list_remove h x (x # q) = Inr q"
  by simp

lemma cancel_loop_ok:
  "\<exists>q'. cancel_loop h rider i q = Inr q' \<and> length q' \<le> length q"
proof (induction h rider i q rule: cancel_loop.induct)
  case (1 h rider i q)
  show ?case
  proof (cases "i < length q")
    case False
    then show ?thesis by (simp add: cancel_loop.simps)
  next
    case inb: True
    show ?thesis
    proof (cases "rider_id (h rider) = rider_id (h (q ! i))")
      case False
      from "1.IH"(2) [OF inb False] obtain q' where
        "cancel_loop h rider (Suc i) q = Inr q'" "length q' \<le> length q" by blast
      with inb False show ?thesis by (simp add: cancel_loop.simps [of h rider i q])
    next
      case True
      have "\<exists>y\<in>set q. rider_id (h y) = rider_id (h (q ! i))"
        using inb by auto
      from list_remove_member [OF this] obtain q1 where
        q1: "list_remove h (q ! i) q = Inr q1" "Suc (length q1) = length q" by blast
      from "1.IH"(1) [OF inb True q1(1)] obtain q' where
        "cancel_loop h rider (Suc i) q1 = Inr q'" "length q' \<le> length q1" by blast
      with inb True q1 show ?thesis by (simp add: cancel_loop.simps [of h rider i q])
    qed
  qed
qed

lemma cancel_ride_ok:
  "\<exists>q'. cancel_ride rider w = (set_waiting q' w, Inr ())
        \<and> length q' \<le> length (waiting_rider (dispatcher w))"
  using cancel_loop_ok [of "rider_heap w" rider 0 "waiting_rider (dispatcher w)"]
  by (auto simp: cancel_ride_def)

lemma cancel_ride_driver_heap [simp]: "driver_heap (fst (cancel_ride rider w)) = driver_heap w"
  by (simp add: cancel_ride_def split: sum.splits)

lemma request_rider_driver_heap:
  "driver_heap (fst (request_rider driver w))
     = (case waiting_rider (dispatcher w) of
          [] \<Rightarrow> driver_heap w
        | r # q \<Rightarrow> (driver_heap w)(driver := (driver_heap w driver)\<lparr>is_idle := False,
                      destination := Some (origin (rider_heap w r))\<rparr>))"
  by (simp add: request_rider_def Let_def split: list.splits)

lemma request_driver_driver_heap:
  "driver_heap (fst (request_driver rider w)) = driver_heap w
   \<or> (\<exists>d. driver_heap (fst (request_driver rider w))
          = (driver_heap w)(d := (driver_heap w d)\<lparr>is_idle := False,
                      destination := Some (origin (rider_heap w rider))\<rparr>))"
  by (auto simp: request_driver_def split: sum.splits option.splits)

text \<open>
  C4. A driver is idle exactly when its destination is \<^verbatim>\<open>None\<close>: this holds for a
  newly constructed driver, it holds after \<^verbatim>\<open>start_drive\<close>, \<^verbatim>\<open>end_drive\<close>,
  \<^verbatim>\<open>start_ride\<close> and \<^verbatim>\<open>end_ride\<close> (also when the travel time cannot be computed
  and the call raises after its assignments), and if it holds for every driver in the
  store then it holds for every driver after \<^verbatim>\<open>request_driver\<close>,
  \<^verbatim>\<open>request_rider\<close> and \<^verbatim>\<open>cancel_ride\<close>.
\<close>

theorem idle_iff_no_destination_invariant:
  "idle_iff_no_destination (Driver_init identifier loc spd)
   \<and> (idle_iff_no_destination d \<longrightarrow>
        idle_iff_no_destination (fst (start_drive d loc'))
        \<and> idle_iff_no_destination (end_drive d)
        \<and> idle_iff_no_destination (fst (start_ride d r))
        \<and> idle_iff_no_destination (end_ride d))
   \<and> ((\<forall>x. idle_iff_no_destination (driver_heap w x)) \<longrightarrow>
        (\<forall>x. idle_iff_no_destination (driver_heap (fst (request_driver rider w)) x))
        \<and> (\<forall>x. idle_iff_no_destination (driver_heap (fst (request_rider driver w)) x))
        \<and> (\<forall>x. idle_iff_no_destination (driver_heap (fst (cancel_ride rider w)) x)))"
proof -
  have init: "idle_iff_no_destination (Driver_init identifier loc spd)"
    by (simp add: idle_iff_no_destination_def Driver_init_def)
  have ops: "idle_iff_no_destination (fst (start_drive d loc'))
        \<and> idle_iff_no_destination (end_drive d)
        \<and> idle_iff_no_destination (fst (start_ride d r))
        \<and> idle_iff_no_destination (end_ride d)"
    by (simp add: idle_iff_no_destination_def start_drive_def end_drive_def start_ride_def
        end_ride_def Let_def)
  have disp: "(\<forall>x. idle_iff_no_destination (driver_heap (fst (request_driver rider w)) x))
        \<and> (\<forall>x. idle_iff_no_destination (driver_heap (fst (request_rider driver w)) x))
        \<and> (\<forall>x. idle_iff_no_destination (driver_heap (fst (cancel_ride rider w)) x))"
    if inv: "\<forall>x. idle_iff_no_destination (driver_heap w x)"
  proof -
    have a: "\<forall>x. idle_iff_no_destination (driver_heap (fst (request_driver rider w)) x)"
      using request_driver_driver_heap [of rider w] inv
      by (auto simp: idle_iff_no_destination_def)
    have b: "\<forall>x. idle_iff_no_destination (driver_heap (fst (request_rider driver w)) x)"
      using inv by (auto simp: request_rider_driver_heap idle_iff_no_destination_def
          split: list.splits)
    have c: "\<forall>x. idle_iff_no_destination (driver_heap (fst (cancel_ride rider w)) x)"
      using inv by simp
    from a b c show ?thesis by blast
  qed
  from init ops disp show ?thesis by blast
qed

theorem idle_iff_no_destination_invariant_witness:
  "idle_iff_no_destination (Driver_init ''D0'' \<lparr>row = 3, col = 5\<rparr> 3)
   \<and> idle_iff_no_destination
        (fst (start_drive (Driver_init ''D0'' \<lparr>row = 3, col = 5\<rparr> 3) \<lparr>row = 7, col = 7\<rparr>))
   \<and> (\<forall>x. idle_iff_no_destination (driver_heap tie_world x))
   \<and> (\<forall>x. idle_iff_no_destination (driver_heap (fst (request_driver 0 tie_world)) x))"
proof -
  have d: "idle_iff_no_destination (Driver_init ''D0'' \<lparr>row = 3, col = 5\<rparr> 3)"
    by (simp add: idle_iff_no_destination_def Driver_init_def)
  have w: "\<forall>x. idle_iff_no_destination (driver_heap tie_world x)"
    by (simp add: idle_iff_no_destination_def Driver_init_def tie_world_def)
  from idle_iff_no_destination_invariant
         [of "''D0''" "\<lparr>row = 3, col = 5\<rparr>" 3 "Driver_init ''D0'' \<lparr>row = 3, col = 5\<rparr> 3"
             "\<lparr>row = 7, col = 7\<rparr>" _ tie_world 0] d w
  show ?thesis by blast
qed

lemma request_rider_nonempty:
  assumes "waiting_rider (dispatcher w) = r # q"
  shows "request_rider driver w
           = (register_driver driver
                (set_driver driver ((driver_heap w driver)\<lparr>is_idle := False,
                     destination := Some (origin (rider_heap w r))\<rparr>) (set_waiting q w)),
              Inr (Some r))"
  using assms by (simp add: request_rider_def Let_def)

lemma request_rider_empty:
  assumes "waiting_rider (dispatcher w) = []"
  shows "request_rider driver w = (register_driver driver w, Inr None)"
  using assms by (simp add: request_rider_def)

lemma request_rider_driver_id [simp]:
  "driver_id (driver_heap (fst (request_rider driver w)) u) = driver_id (driver_heap w u)"
  by (simp add: request_rider_driver_heap split: list.splits)

lemma request_rider_drivers:
  "drivers (dispatcher (fst (request_rider driver w)))
     = (if \<exists>u\<in>set (drivers (dispatcher w)).
             driver_id (driver_heap w u) = driver_id (driver_heap w driver)
        then drivers (dispatcher w) else drivers (dispatcher w) @ [driver])"
proof (cases "waiting_rider (dispatcher w)")
  case Nil
  then show ?thesis by (simp add: request_rider_empty register_driver_drivers)
next
  case (Cons r q)
  let ?w = "set_driver driver ((driver_heap w driver)\<lparr>is_idle := False,
                     destination := Some (origin (rider_heap w r))\<rparr>) (set_waiting q w)"
  have ids: "driver_id (driver_heap ?w u) = driver_id (driver_heap w u)" for u
    by simp
  have "drivers (dispatcher (register_driver driver ?w))
     = (if \<exists>u\<in>set (drivers (dispatcher w)).
             driver_id (driver_heap w u) = driver_id (driver_heap w driver)
        then drivers (dispatcher w) else drivers (dispatcher w) @ [driver])"
    unfolding register_driver_drivers ids by simp
  then show ?thesis using Cons by (simp only: request_rider_nonempty fst_conv)
qed

text \<open>
  C6. \<^verbatim>\<open>request_rider(driver)\<close> on a non-empty waiting queue returns its head, removes
  it from the queue and makes the driver non-idle with that rider's origin as
  destination; on an empty queue it returns nothing and leaves every driver as it was.
  In both cases the driver is appended to the registered drivers exactly when no
  registered driver has its id, so a second call with a driver of the same id leaves
  the registered drivers unchanged and ids that were distinct stay distinct. After two
  riders requested a driver from a new dispatcher, the queue holds them in request
  order, and one call returns the first and leaves the second queued.
\<close>

theorem request_rider_head_and_registration:
  "(waiting_rider (dispatcher w) = r # q \<longrightarrow>
      snd (request_rider driver w) = Inr (Some r)
      \<and> waiting_rider (dispatcher (fst (request_rider driver w))) = q
      \<and> driver_heap (fst (request_rider driver w))
          = (driver_heap w)(driver := (driver_heap w driver)\<lparr>is_idle := False,
               destination := Some (origin (rider_heap w r))\<rparr>))
   \<and> (waiting_rider (dispatcher w) = [] \<longrightarrow>
      snd (request_rider driver w) = Inr None
      \<and> waiting_rider (dispatcher (fst (request_rider driver w))) = []
      \<and> driver_heap (fst (request_rider driver w)) = driver_heap w)
   \<and> drivers (dispatcher (fst (request_rider driver w)))
       = (if \<exists>u\<in>set (drivers (dispatcher w)).
               driver_id (driver_heap w u) = driver_id (driver_heap w driver)
          then drivers (dispatcher w) else drivers (dispatcher w) @ [driver])
   \<and> (driver_id (driver_heap w d2) = driver_id (driver_heap w driver) \<longrightarrow>
        drivers (dispatcher (fst (request_rider d2 (fst (request_rider driver w)))))
          = drivers (dispatcher (fst (request_rider driver w))))
   \<and> (distinct (map (\<lambda>u. driver_id (driver_heap w u)) (drivers (dispatcher w))) \<longrightarrow>
        distinct (map (\<lambda>u. driver_id (driver_heap (fst (request_rider driver w)) u))
                    (drivers (dispatcher (fst (request_rider driver w))))))
   \<and> (drivers (dispatcher w) = [] \<and> waiting_rider (dispatcher w) = [] \<longrightarrow>
        waiting_rider (dispatcher (fst (request_driver r2 (fst (request_driver r1 w)))))
          = [r1, r2]
        \<and> snd (request_rider driver (fst (request_driver r2 (fst (request_driver r1 w)))))
            = Inr (Some r1)
        \<and> waiting_rider (dispatcher (fst (request_rider driver
              (fst (request_driver r2 (fst (request_driver r1 w)))))))
            = [r2])"
proof -
  have a: "snd (request_rider driver w) = Inr (Some r)
      \<and> waiting_rider (dispatcher (fst (request_rider driver w))) = q
      \<and> driver_heap (fst (request_rider driver w))
          = (driver_heap w)(driver := (driver_heap w driver)\<lparr>is_idle := False,
               destination := Some (origin (rider_heap w r))\<rparr>)"
    if "waiting_rider (dispatcher w) = r # q"
    using that by (simp add: request_rider_nonempty)
  have b: "snd (request_rider driver w) = Inr None
      \<and> waiting_rider (dispatcher (fst (request_rider driver w))) = []
      \<and> driver_heap (fst (request_rider driver w)) = driver_heap w"
    if "waiting_rider (dispatcher w) = []"
    using that by (simp add: request_rider_empty)
  have c: "drivers (dispatcher (fst (request_rider d2 (fst (request_rider driver w)))))
          = drivers (dispatcher (fst (request_rider driver w)))"
    if "driver_id (driver_heap w d2) = driver_id (driver_heap w driver)"
    using that by (auto simp: request_rider_drivers)
  have d: "distinct (map (\<lambda>u. driver_id (driver_heap (fst (request_rider driver w)) u))
                    (drivers (dispatcher (fst (request_rider driver w)))))"
    if "distinct (map (\<lambda>u. driver_id (driver_heap w u)) (drivers (dispatcher w)))"
    using that by (auto simp: request_rider_drivers)
  have e: "waiting_rider (dispatcher (fst (request_driver r2 (fst (request_driver r1 w)))))
          = [r1, r2]
        \<and> snd (request_rider driver (fst (request_driver r2 (fst (request_driver r1 w)))))
            = Inr (Some r1)
        \<and> waiting_rider (dispatcher (fst (request_rider driver
              (fst (request_driver r2 (fst (request_driver r1 w)))))))
            = [r2]"
    if "drivers (dispatcher w) = []" "waiting_rider (dispatcher w) = []"
  proof -
    have q: "waiting_rider (dispatcher (fst (request_driver r2 (fst (request_driver r1 w)))))
          = [r1, r2]"
      using that by (simp add: request_driver_def)
    from q show ?thesis by (simp add: request_rider_nonempty)
  qed
  from a b c d e request_rider_drivers [of driver w] show ?thesis by blast
qed

theorem request_rider_head_and_registration_witness:
  "drivers (dispatcher queue_world) = [] \<and> waiting_rider (dispatcher queue_world) = []
   \<and> distinct (map (\<lambda>u. driver_id (driver_heap queue_world u))
                 (drivers (dispatcher queue_world)))
   \<and> driver_id (driver_heap queue_world 1) = driver_id (driver_heap queue_world 0)
   \<and> snd (request_rider 0 (fst (request_driver 2 (fst (request_driver 1 queue_world)))))
       = Inr (Some 1)
   \<and> waiting_rider (dispatcher (fst (request_rider 0
        (fst (request_driver 2 (fst (request_driver 1 queue_world))))))) = [2]
   \<and> drivers (dispatcher (fst (request_rider 0 queue_world))) = [0]
   \<and> drivers (dispatcher (fst (request_rider 1 (fst (request_rider 0 queue_world))))) = [0]
   \<and> snd (request_rider 0 queue_world) = Inr None
   \<and> waiting_rider (dispatcher (set_waiting [2, 1] queue_world)) = [2, 1]
   \<and> snd (request_rider 0 (set_waiting [2, 1] queue_world)) = Inr (Some 2)
   \<and> waiting_rider (dispatcher (fst (request_rider 0 (set_waiting [2, 1] queue_world)))) = [1]
   \<and> destination (driver_heap (fst (request_rider 0 (set_waiting [2, 1] queue_world))) 0)
       = Some \<lparr>row = 0, col = 2\<rparr>"
proof -
  let ?w = "set_waiting [2, 1] queue_world"
  have h: "drivers (dispatcher queue_world) = []" "waiting_rider (dispatcher queue_world) = []"
    "distinct (map (\<lambda>u. driver_id (driver_heap queue_world u))
                 (drivers (dispatcher queue_world)))"
    "driver_id (driver_heap queue_world 1) = driver_id (driver_heap queue_world 0)"
    by (simp_all add: queue_world_def Dispatcher_init_def)
  have a: "snd (request_rider 0 (fst (request_driver 2 (fst (request_driver 1 queue_world)))))
       = Inr (Some 1)
   \<and> waiting_rider (dispatcher (fst (request_rider 0
        (fst (request_driver 2 (fst (request_driver 1 queue_world))))))) = [2]
   \<and> drivers (dispatcher (fst (request_rider 0 queue_world))) = [0]
   \<and> drivers (dispatcher (fst (request_rider 1 (fst (request_rider 0 queue_world))))) = [0]
   \<and> snd (request_rider 0 queue_world) = Inr None"
    using request_rider_head_and_registration
         [where w = queue_world and driver = 0 and ?d2.0 = 1 and ?r1.0 = 1 and ?r2.0 = 2] h
    by simp
  have hw: "waiting_rider (dispatcher ?w) = [2, 1]" by simp
  have o: "origin (rider_heap queue_world 2) = \<lparr>row = 0, col = 2\<rparr>"
    by (simp add: queue_world_def Rider_init_def)
  have b: "snd (request_rider 0 ?w) = Inr (Some 2)
   \<and> waiting_rider (dispatcher (fst (request_rider 0 ?w))) = [1]
   \<and> destination (driver_heap (fst (request_rider 0 ?w)) 0) = Some \<lparr>row = 0, col = 2\<rparr>"
    using request_rider_head_and_registration
         [where w = ?w and driver = 0 and r = 2 and q = "[1]"] hw o
    by simp
  from h a hw b show ?thesis by blast
qed

section \<open>Pickups\<close>

lemma fst_case_sum: "fst (case x of Inl e \<Rightarrow> (S, f e) | Inr v \<Rightarrow> (S, g v)) = S"
  by (cases x) simp_all

lemma Pickup_do_waiting_state:
  assumes "status (rider_heap w rider) = WAITING"
  shows "fst (do (Pickup t rider driver) w)
           = w\<lparr>driver_heap := (driver_heap w)
                   (driver := (driver_heap w driver)
                      \<lparr>location := Some (origin (rider_heap w rider)),
                       destination := Some (dest (rider_heap w rider)),
                       is_idle := False\<rparr>),
                rider_heap := (rider_heap w)
                   (rider := (rider_heap w rider)\<lparr>status := SATISFIED\<rparr>),
                monitor := monitor w @
                   [(t, DRIVER, PICKUP, driver_id (driver_heap w driver),
                     destination (driver_heap w driver)),
                    (t, RIDER, PICKUP, rider_id (rider_heap w rider),
                     Some (origin (rider_heap w rider)))]\<rparr>"
  using assms
  apply (simp add: Pickup_do_def Let_def end_drive_def start_ride_def
      set_driver_def set_rider_def notify_def fst_case_sum)
  apply (rule world.equality; simp; rule arg_cong [where f = "fun_upd _ _"];
      rule Driver.equality; simp)
  done

lemma Pickup_do_waiting_result:
  assumes "status (rider_heap w rider) = WAITING"
  shows "snd (do (Pickup t rider driver) w)
           = (if speed (driver_heap w driver) = 0 then Inl ZeroDivisionError
              else if (2 ^ 1024 - 2 ^ 970) * \<bar>of_int (speed (driver_heap w driver))\<bar>
                        \<le> (of_int (manhattan_distance (origin (rider_heap w rider))
                                     (dest (rider_heap w rider))) :: rat)
              then Inl OverflowError
              else Inr [Dropoff (t + py_round (float_round
                          (of_int (manhattan_distance (origin (rider_heap w rider))
                                     (dest (rider_heap w rider)))
                            / of_int (speed (driver_heap w driver))))) rider driver])"
  using assms
  by (simp add: Pickup_do_def Let_def end_drive_def start_ride_def get_travel_time_cases
      set_driver_def set_rider_def notify_def)


text \<open>
  C2. A \<^verbatim>\<open>Pickup(t, rider, driver)\<close> executed while the driver has a destination
  \<open>l\<close>. If the rider is waiting, the driver arrives at \<open>l\<close> (the location reported
  to the monitor), the rider becomes satisfied, and \<^verbatim>\<open>start_ride\<close> places the driver
  at the rider's origin, non-idle and with the rider's destination as destination;
  then the division of the distance from the rider's origin to the rider's
  destination by the driver's speed raises ZeroDivisionError when the speed is 0 and
  OverflowError when the distance is at least \<open>2 ^ 1024 - 2 ^ 970\<close> times the absolute
  value of the speed, and otherwise exactly one Dropoff is returned, at \<open>t\<close> plus
  Python's \<^verbatim>\<open>round\<close> of the float nearest to the quotient. If the rider has
  cancelled, the driver arrives at \<open>l\<close>, is idle without destination, and exactly one
  DriverRequest at \<open>t\<close> is returned. If the rider is satisfied, nothing changes and
  no event is returned. The last two branches never raise.
\<close>

theorem pickup_branches:
  assumes "destination (driver_heap w driver) = Some l"
  shows "(status (rider_heap w rider) = WAITING \<longrightarrow>
            do (Pickup t rider driver) w
              = (w\<lparr>driver_heap := (driver_heap w)
                      (driver := (driver_heap w driver)
                         \<lparr>location := Some (origin (rider_heap w rider)),
                          destination := Some (dest (rider_heap w rider)),
                          is_idle := False\<rparr>),
                   rider_heap := (rider_heap w)
                      (rider := (rider_heap w rider)\<lparr>status := SATISFIED\<rparr>),
                   monitor := monitor w @
                      [(t, DRIVER, PICKUP, driver_id (driver_heap w driver), Some l),
                       (t, RIDER, PICKUP, rider_id (rider_heap w rider),
                        Some (origin (rider_heap w rider)))]\<rparr>,
                 if speed (driver_heap w driver) = 0 then Inl ZeroDivisionError
                 else if (2 ^ 1024 - 2 ^ 970) * \<bar>of_int (speed (driver_heap w driver))\<bar>
                           \<le> (of_int (manhattan_distance (origin (rider_heap w rider))
                                        (dest (rider_heap w rider))) :: rat)
                 then Inl OverflowError
                 else Inr [Dropoff (t + py_round (float_round
                             (of_int (manhattan_distance (origin (rider_heap w rider))
                                        (dest (rider_heap w rider)))
                               / of_int (speed (driver_heap w driver))))) rider driver]))
       \<and> (status (rider_heap w rider) = CANCELLED \<longrightarrow>
            do (Pickup t rider driver) w
              = (w\<lparr>driver_heap := (driver_heap w)
                      (driver := (driver_heap w driver)
                         \<lparr>location := Some l, destination := None, is_idle := True\<rparr>)\<rparr>,
                 Inr [DriverRequest t driver]))
       \<and> (status (rider_heap w rider) = SATISFIED \<longrightarrow>
            do (Pickup t rider driver) w = (w, Inr []))"
proof -
  have a: "do (Pickup t rider driver) w
              = (w\<lparr>driver_heap := (driver_heap w)
                      (driver := (driver_heap w driver)
                         \<lparr>location := Some (origin (rider_heap w rider)),
                          destination := Some (dest (rider_heap w rider)),
                          is_idle := False\<rparr>),
                   rider_heap := (rider_heap w)
                      (rider := (rider_heap w rider)\<lparr>status := SATISFIED\<rparr>),
                   monitor := monitor w @
                      [(t, DRIVER, PICKUP, driver_id (driver_heap w driver), Some l),
                       (t, RIDER, PICKUP, rider_id (rider_heap w rider),
                        Some (origin (rider_heap w rider)))]\<rparr>,
                 if speed (driver_heap w driver) = 0 then Inl ZeroDivisionError
                 else if (2 ^ 1024 - 2 ^ 970) * \<bar>of_int (speed (driver_heap w driver))\<bar>
                           \<le> (of_int (manhattan_distance (origin (rider_heap w rider))
                                        (dest (rider_heap w rider))) :: rat)
                 then Inl OverflowError
                 else Inr [Dropoff (t + py_round (float_round
                             (of_int (manhattan_distance (origin (rider_heap w rider))
                                        (dest (rider_heap w rider)))
                               / of_int (speed (driver_heap w driver))))) rider driver])"
    if "status (rider_heap w rider) = WAITING"
    using Pickup_do_waiting_state [OF that, of t driver]
      Pickup_do_waiting_result [OF that, of t driver] assms
    by (simp only: prod_eq_iff fst_conv snd_conv simp_thms)
  have b: "do (Pickup t rider driver) w
              = (w\<lparr>driver_heap := (driver_heap w)
                      (driver := (driver_heap w driver)
                         \<lparr>location := Some l, destination := None, is_idle := True\<rparr>)\<rparr>,
                 Inr [DriverRequest t driver])"
    if "status (rider_heap w rider) = CANCELLED"
    using that assms by (simp add: Pickup_do_def end_drive_def set_driver_def)
  have c: "do (Pickup t rider driver) w = (w, Inr [])"
    if "status (rider_heap w rider) = SATISFIED"
    using that by (simp add: Pickup_do_def)
  from a b c show ?thesis by blast
qed

theorem pickup_branches_witness:
  "destination (driver_heap pickup_elsewhere_world 0) = Some \<lparr>row = 1, col = 1\<rparr>
   \<and> status (rider_heap pickup_elsewhere_world 0) = WAITING
   \<and> speed (driver_heap pickup_elsewhere_world 0) = 1
   \<and> snd (do (Pickup 5 0 0) pickup_elsewhere_world) = Inr [Dropoff 7 0 0]
   \<and> snd (do (Pickup 5 0 0)
        (set_rider 0 ((rider_heap pickup_elsewhere_world 0)\<lparr>status := CANCELLED\<rparr>)
           pickup_elsewhere_world)) = Inr [DriverRequest 5 0]
   \<and> snd (do (Pickup 5 0 0)
        (set_rider 0 ((rider_heap pickup_elsewhere_world 0)\<lparr>status := SATISFIED\<rparr>)
           pickup_elsewhere_world)) = Inr []
   \<and> snd (do (Pickup 5 0 0)
        (set_rider 0 ((rider_heap pickup_elsewhere_world 0)\<lparr>dest := \<lparr>row = 2, col = 2 ^ 1024\<rparr>\<rparr>)
           pickup_elsewhere_world)) = Inl OverflowError
   \<and> destination (driver_heap pickup_zero_speed_world 0) = Some \<lparr>row = 1, col = 1\<rparr>
   \<and> status (rider_heap pickup_zero_speed_world 0) = WAITING
   \<and> speed (driver_heap pickup_zero_speed_world 0) = 0
   \<and> snd (do (Pickup 5 0 0) pickup_zero_speed_world) = Inl ZeroDivisionError"
proof -
  let ?c = "set_rider 0 ((rider_heap pickup_elsewhere_world 0)\<lparr>status := CANCELLED\<rparr>)
           pickup_elsewhere_world"
  let ?s = "set_rider 0 ((rider_heap pickup_elsewhere_world 0)\<lparr>status := SATISFIED\<rparr>)
           pickup_elsewhere_world"
  let ?f = "set_rider 0 ((rider_heap pickup_elsewhere_world 0)\<lparr>dest := \<lparr>row = 2, col = 2 ^ 1024\<rparr>\<rparr>)
           pickup_elsewhere_world"
  have h: "destination (driver_heap pickup_elsewhere_world 0) = Some \<lparr>row = 1, col = 1\<rparr>"
    "status (rider_heap pickup_elsewhere_world 0) = WAITING"
    "speed (driver_heap pickup_elsewhere_world 0) = 1"
    by (simp_all add: pickup_elsewhere_world_def Driver_init_def Rider_init_def)
  have v: "origin (rider_heap pickup_elsewhere_world 0) = \<lparr>row = 2, col = 2\<rparr>"
    "dest (rider_heap pickup_elsewhere_world 0) = \<lparr>row = 3, col = 3\<rparr>"
    by (simp_all add: pickup_elsewhere_world_def Rider_init_def)
  have w: "snd (do (Pickup 5 0 0) pickup_elsewhere_world) = Inr [Dropoff 7 0 0]"
    using pickup_branches [OF h(1), of 0 5] h(2,3)
    by (simp add: v eval_travel)
  have hc: "destination (driver_heap ?c 0) = Some \<lparr>row = 1, col = 1\<rparr>"
    "status (rider_heap ?c 0) = CANCELLED"
    using h(1) by simp_all
  have c: "snd (do (Pickup 5 0 0) ?c) = Inr [DriverRequest 5 0]"
    using pickup_branches [OF hc(1), of 0 5] hc(2) by simp
  have hs: "destination (driver_heap ?s 0) = Some \<lparr>row = 1, col = 1\<rparr>"
    "status (rider_heap ?s 0) = SATISFIED"
    using h(1) by simp_all
  have s: "snd (do (Pickup 5 0 0) ?s) = Inr []"
    using pickup_branches [OF hs(1), of 0 5] hs(2) by simp
  have hf: "destination (driver_heap ?f 0) = Some \<lparr>row = 1, col = 1\<rparr>"
    "status (rider_heap ?f 0) = WAITING" "speed (driver_heap ?f 0) = 1"
    using h by simp_all
  have f: "snd (do (Pickup 5 0 0) ?f) = Inl OverflowError"
    using pickup_branches [OF hf(1), of 0 5] hf(2,3)
    by (simp add: v manhattan_distance_def)
  have hz: "destination (driver_heap pickup_zero_speed_world 0) = Some \<lparr>row = 1, col = 1\<rparr>"
    "status (rider_heap pickup_zero_speed_world 0) = WAITING"
    "speed (driver_heap pickup_zero_speed_world 0) = 0"
    by (simp_all add: pickup_zero_speed_world_def Driver_init_def Rider_init_def)
  have z: "snd (do (Pickup 5 0 0) pickup_zero_speed_world) = Inl ZeroDivisionError"
    using pickup_branches [OF hz(1), of 0 5] hz(2,3) by simp
  from h w c s f hz z show ?thesis by blast
qed

text \<open>
  C2 as the spec words it fails twice. With a waiting rider and a driver of speed 0
  whose destination is set, the Pickup raises ZeroDivisionError, and the rider is
  satisfied after the raise; and with a driver whose destination (1, 1) is not the
  rider's origin (2, 2), the driver ends at the rider's origin, not at the
  destination it had.
\<close>

theorem pickup_counterexample:
  "destination (driver_heap pickup_zero_speed_world 0) = Some \<lparr>row = 1, col = 1\<rparr>
   \<and> status (rider_heap pickup_zero_speed_world 0) = WAITING
   \<and> snd (do (Pickup 5 0 0) pickup_zero_speed_world) = Inl ZeroDivisionError
   \<and> status (rider_heap (fst (do (Pickup 5 0 0) pickup_zero_speed_world)) 0) = SATISFIED
   \<and> destination (driver_heap pickup_elsewhere_world 0) = Some \<lparr>row = 1, col = 1\<rparr>
   \<and> status (rider_heap pickup_elsewhere_world 0) = WAITING
   \<and> location (driver_heap (fst (do (Pickup 5 0 0) pickup_elsewhere_world)) 0)
       = Some \<lparr>row = 2, col = 2\<rparr>"
  by (simp add: pickup_zero_speed_world_def pickup_elsewhere_world_def Pickup_do_def Let_def
      end_drive_def start_ride_def get_travel_time_def Driver_init_def Rider_init_def
      eval_travel)

section \<open>The status of a rider\<close>

lemma request_driver_rider_heap [simp]:
  "rider_heap (fst (request_driver rider w)) = rider_heap w"
  by (simp add: request_driver_def split: sum.splits option.splits)

lemma request_rider_rider_heap [simp]:
  "rider_heap (fst (request_rider driver w)) = rider_heap w"
  by (simp add: request_rider_def Let_def register_driver_def split: sum.splits)

lemma cancel_ride_rider_heap [simp]:
  "rider_heap (fst (cancel_ride rider w)) = rider_heap w"
  by (simp add: cancel_ride_def split: sum.splits)

lemma RiderRequest_do_rider_heap:
  "rider_heap (fst (RiderRequest_do t rider w)) = rider_heap w"
proof -
  have "rider_heap (fst (request_driver rider (notify t a k i l w))) = rider_heap w"
    for a k i l by simp
  then show ?thesis
    by (auto simp: RiderRequest_do_def Let_def split: prod.splits sum.splits option.splits
        dest!: arg_cong [where f = "\<lambda>p. rider_heap (fst p)"])
qed

lemma DriverRequest_do_rider_heap:
  "rider_heap (fst (DriverRequest_do t driver w)) = rider_heap w"
proof -
  have "rider_heap (fst (request_rider driver (notify t a k i l w))) = rider_heap w"
    for a k i l by simp
  then show ?thesis
    by (auto simp: DriverRequest_do_def Let_def split: prod.splits sum.splits option.splits
        dest!: arg_cong [where f = "\<lambda>p. rider_heap (fst p)"])
qed

lemma Dropoff_do_rider_heap:
  "rider_heap (fst (Dropoff_do t rider driver w)) = rider_heap w"
proof -
  have "rider_heap (fst (cancel_ride rider w')) = rider_heap w'" for w' by simp
  then show ?thesis
    by (auto simp: Dropoff_do_def Let_def split: prod.splits sum.splits
        dest!: arg_cong [where f = "\<lambda>p. rider_heap (fst p)"])
qed

lemma Cancellation_do_rider_heap:
  "rider_heap (fst (Cancellation_do t rider w))
     = (if status (rider_heap w rider) = WAITING
        then (rider_heap w)(rider := (rider_heap w rider)\<lparr>status := CANCELLED\<rparr>)
        else rider_heap w)"
proof -
  have "rider_heap (fst (cancel_ride rider w')) = rider_heap w'" for w' by simp
  then show ?thesis
    by (auto simp: Cancellation_do_def Let_def split: prod.splits sum.splits
        dest!: arg_cong [where f = "\<lambda>p. rider_heap (fst p)"])
qed

lemma Pickup_do_rider_heap:
  "rider_heap (fst (Pickup_do t rider driver w))
     = (if status (rider_heap w rider) = WAITING
        then (rider_heap w)(rider := (rider_heap w rider)\<lparr>status := SATISFIED\<rparr>)
        else rider_heap w)"
  by (simp add: Pickup_do_def Let_def start_ride_def split: prod.splits sum.splits)

lemma do_status_terminal:
  assumes "status (rider_heap w r) \<noteq> WAITING"
  shows "status (rider_heap (fst (do e w)) r) = status (rider_heap w r)"
  using assms
  by (cases e)
     (auto simp: RiderRequest_do_rider_heap DriverRequest_do_rider_heap
        Cancellation_do_rider_heap Pickup_do_rider_heap Dropoff_do_rider_heap)

lemma status_trace_terminal:
  "status (rider_heap w r) \<noteq> WAITING \<Longrightarrow>
   status_trace r es w = replicate (Suc (length es)) (status (rider_heap w r))"
proof (induction es arbitrary: w)
  case Nil
  then show ?case by simp
next
  case (Cons e es)
  from do_status_terminal [OF Cons.prems, of e]
  have eq: "status (rider_heap (fst (do e w)) r) = status (rider_heap w r)" .
  with Cons.prems have "status (rider_heap (fst (do e w)) r) \<noteq> WAITING" by simp
  from Cons.IH [OF this] eq show ?case by simp
qed

text \<open>
  C3. Over any sequence of event executions, the status of a rider that starts as
  waiting is waiting for some executions and then, if it changes at all, one and the
  same of cancelled or satisfied for all the remaining ones; a status that is
  cancelled or satisfied is kept by every later execution.
\<close>

theorem rider_status_changes_once:
  "(status (rider_heap w r) = WAITING \<longrightarrow>
      (\<exists>n c. n \<le> length es \<and> (c = CANCELLED \<or> c = SATISFIED)
         \<and> status_trace r es w = replicate (Suc n) WAITING @ replicate (length es - n) c))
   \<and> (status (rider_heap w r) \<noteq> WAITING \<longrightarrow>
      status_trace r es w = replicate (Suc (length es)) (status (rider_heap w r)))"
proof -
  have "\<exists>n c. n \<le> length es \<and> (c = CANCELLED \<or> c = SATISFIED)
         \<and> status_trace r es w = replicate (Suc n) WAITING @ replicate (length es - n) c"
    if "status (rider_heap w r) = WAITING"
    using that
  proof (induction es arbitrary: w)
    case Nil
    then show ?case by (intro exI [of _ 0] exI [of _ CANCELLED]) simp
  next
    case (Cons e es)
    let ?w = "fst (do e w)"
    show ?case
    proof (cases "status (rider_heap ?w r) = WAITING")
      case True
      from Cons.IH [OF True] obtain n c where
        n: "n \<le> length es" "c = CANCELLED \<or> c = SATISFIED"
        "status_trace r es ?w = replicate (Suc n) WAITING @ replicate (length es - n) c"
        by blast
      have "status_trace r (e # es) w
              = replicate (Suc (Suc n)) WAITING @ replicate (length (e # es) - Suc n) c"
        using n(3) Cons.prems by simp
      with n(1,2) show ?thesis
        by (intro exI [of _ "Suc n"] exI [of _ c]) simp
    next
      case False
      let ?c = "status (rider_heap ?w r)"
      from False have c: "?c = CANCELLED \<or> ?c = SATISFIED"
        by (cases ?c) simp_all
      have "status_trace r (e # es) w
              = replicate (Suc 0) WAITING @ replicate (length (e # es) - 0) ?c"
        using status_trace_terminal [OF False, of es] Cons.prems by simp
      with c show ?thesis
        by (intro exI [of _ 0] exI [of _ ?c]) simp
    qed
  qed
  with status_trace_terminal [of w r es] show ?thesis by blast
qed

theorem rider_status_changes_once_witness:
  "status (rider_heap e2e_world 0) = WAITING
   \<and> status_trace 0 [RiderRequest 0 0, Pickup 2 0 0, Cancellation 10 0] e2e_world
       = [WAITING, WAITING, SATISFIED, SATISFIED]
   \<and> status (rider_heap
        (set_rider 0 ((rider_heap e2e_world 0)\<lparr>status := CANCELLED\<rparr>) e2e_world) 0)
       = CANCELLED
   \<and> status_trace 0 [Pickup 2 0 0, Cancellation 10 0]
        (set_rider 0 ((rider_heap e2e_world 0)\<lparr>status := CANCELLED\<rparr>) e2e_world)
       = [CANCELLED, CANCELLED, CANCELLED]"
proof -
  let ?c = "set_rider 0 ((rider_heap e2e_world 0)\<lparr>status := CANCELLED\<rparr>) e2e_world"
  have h: "status (rider_heap e2e_world 0) = WAITING"
    by (simp add: e2e_world_def Rider_init_def)
  have t: "status_trace 0 [RiderRequest 0 0, Pickup 2 0 0, Cancellation 10 0] e2e_world
       = [WAITING, WAITING, SATISFIED, SATISFIED]"
    by (simp add: RiderRequest_do_rider_heap Pickup_do_rider_heap Cancellation_do_rider_heap
        e2e_world_def Rider_init_def)
  have hc: "status (rider_heap ?c 0) = CANCELLED" by simp
  have c: "status_trace 0 [Pickup 2 0 0, Cancellation 10 0] ?c
       = [CANCELLED, CANCELLED, CANCELLED]"
    using rider_status_changes_once [of ?c 0 "[Pickup 2 0 0, Cancellation 10 0]"] hc
    by (simp add: numeral_3_eq_3)
  from rider_status_changes_once
         [of e2e_world 0 "[RiderRequest 0 0, Pickup 2 0 0, Cancellation 10 0]"] h t hc c
  show ?thesis by simp
qed

section \<open>The end-to-end example\<close>

lemma e2e_request:
  "do (RiderRequest 0 0) e2e_world
     = (e2e_world\<lparr>driver_heap := (driver_heap e2e_world)
           (0 := (Driver_init ''D0'' \<lparr>row = 3, col = 5\<rparr> 3)
                   \<lparr>is_idle := False, destination := Some \<lparr>row = 7, col = 7\<rparr>\<rparr>),
          monitor := [(0, RIDER, REQUEST, ''R0'', Some \<lparr>row = 7, col = 7\<rparr>)]\<rparr>,
        Inr [Pickup 2 0 0, Cancellation 10 0])"
  by (simp add: e2e_world_def RiderRequest_do_def request_driver_def start_drive_def Let_def
      get_travel_time_def eval_travel Driver_init_def Rider_init_def
      notify_def set_driver_def)

text \<open>
  C7. With \<open>D0\<close> at (3, 5), speed 3, registered and idle, and \<open>R0\<close> with patience 10
  from (7, 7) to (20, 2): the distance is 6 and the travel time 2;
  \<^verbatim>\<open>RiderRequest(0, R0)\<close> matches \<open>D0\<close> and returns a Pickup at 2 and a Cancellation
  at 10; that Pickup, executed while \<open>R0\<close> is waiting, makes \<open>R0\<close> satisfied and
  returns a Dropoff at 8 (distance 18, travel time 6); the Cancellation at 10 then
  changes nothing and returns no event.
\<close>

theorem end_to_end_example:
  "manhattan_distance \<lparr>row = 3, col = 5\<rparr> \<lparr>row = 7, col = 7\<rparr> = 6
   \<and> get_travel_time (driver_heap e2e_world 0) \<lparr>row = 7, col = 7\<rparr> = Inr 2
   \<and> snd (do (RiderRequest 0 0) e2e_world) = Inr [Pickup 2 0 0, Cancellation 10 0]
   \<and> \<not> is_idle (driver_heap (fst (do (RiderRequest 0 0) e2e_world)) 0)
   \<and> destination (driver_heap (fst (do (RiderRequest 0 0) e2e_world)) 0)
       = Some \<lparr>row = 7, col = 7\<rparr>
   \<and> status (rider_heap (fst (do (RiderRequest 0 0) e2e_world)) 0) = WAITING
   \<and> manhattan_distance \<lparr>row = 7, col = 7\<rparr> \<lparr>row = 20, col = 2\<rparr> = 18
   \<and> snd (do (Pickup 2 0 0) (fst (do (RiderRequest 0 0) e2e_world))) = Inr [Dropoff 8 0 0]
   \<and> status (rider_heap (fst (do (Pickup 2 0 0) (fst (do (RiderRequest 0 0) e2e_world)))) 0)
       = SATISFIED
   \<and> do (Cancellation 10 0) (fst (do (Pickup 2 0 0) (fst (do (RiderRequest 0 0) e2e_world))))
       = (fst (do (Pickup 2 0 0) (fst (do (RiderRequest 0 0) e2e_world))), Inr [])"
proof -
  let ?w1 = "fst (do (RiderRequest 0 0) e2e_world)"
  let ?w2 = "fst (do (Pickup 2 0 0) ?w1)"
  have m1: "manhattan_distance \<lparr>row = 3, col = 5\<rparr> \<lparr>row = 7, col = 7\<rparr> = 6"
    and m2: "manhattan_distance \<lparr>row = 7, col = 7\<rparr> \<lparr>row = 20, col = 2\<rparr> = 18"
    by (simp_all add: manhattan_distance_def)
  have t1: "get_travel_time (driver_heap e2e_world 0) \<lparr>row = 7, col = 7\<rparr> = Inr 2"
    by (simp add: e2e_world_def get_travel_time_def eval_travel Driver_init_def)
  have r: "snd (do (RiderRequest 0 0) e2e_world) = Inr [Pickup 2 0 0, Cancellation 10 0]"
    by (simp add: e2e_request del: do.simps)
  have d1: "\<not> is_idle (driver_heap ?w1 0)"
    "destination (driver_heap ?w1 0) = Some \<lparr>row = 7, col = 7\<rparr>"
    "speed (driver_heap ?w1 0) = 3"
    by (simp_all add: e2e_request Driver_init_def del: do.simps)
  have r1: "rider_heap ?w1 0 = Rider_init ''R0'' 10 \<lparr>row = 7, col = 7\<rparr> \<lparr>row = 20, col = 2\<rparr>"
    by (simp add: RiderRequest_do_rider_heap e2e_world_def)
  have s1: "status (rider_heap ?w1 0) = WAITING"
    using r1 by (simp add: Rider_init_def)
  have p: "snd (do (Pickup 2 0 0) ?w1) = Inr [Dropoff 8 0 0]"
    using s1 r1 d1
    by (simp add: Pickup_do_def Let_def end_drive_def start_ride_def get_travel_time_def
        eval_travel Rider_init_def)
  have s2: "status (rider_heap ?w2 0) = SATISFIED"
    using s1 by (simp add: Pickup_do_rider_heap)
  have c: "do (Cancellation 10 0) ?w2 = (?w2, Inr [])"
    using s2 by (simp add: Cancellation_do_def)
  from m1 m2 t1 r d1(1,2) s1 p s2 c show ?thesis by blast
qed

section \<open>Termination of the simulation\<close>

lemma pq_remove_weight:
  assumes "q \<noteq> []" and "pq_remove pick q = (e, q')"
  shows "sum_list (map weight q) = weight e + sum_list (map weight q')"
proof -
  let ?i = "pick q mod length q"
  have i: "?i < length q" using assms(1) by simp
  have e: "e = q ! ?i" and q': "q' = take ?i q @ drop (Suc ?i) q"
    using assms(2) by (simp_all add: pq_remove_def Let_def)
  have "q = take ?i q @ q ! ?i # drop (Suc ?i) q"
    using i by (rule id_take_nth_drop)
  then have "sum_list (map weight q)
      = sum_list (map weight (take ?i q @ q ! ?i # drop (Suc ?i) q))" by simp
  then show ?thesis unfolding e q' by simp
qed

lemma add_all_weight:
  "sum_list (map weight (add_all evs q)) = sum_list (map weight q) + sum_list (map weight evs)"
  by (induction evs arbitrary: q) (simp_all add: pq_add_def)

lemma request_driver_result:
  "(\<exists>e. request_driver rider w = (w, Inl e))
   \<or> request_driver rider w
        = (set_waiting (waiting_rider (dispatcher w) @ [rider]) w, Inr None)
   \<or> (\<exists>d v. request_driver rider w = (set_driver d v w, Inr (Some d)))"
  by (auto simp: request_driver_def split: sum.splits option.splits)

lemma request_rider_result:
  "(\<exists>e. request_rider driver w = (w, Inl e))
   \<or> (waiting_rider (dispatcher w) = []
        \<and> request_rider driver w = (register_driver driver w, Inr None))
   \<or> (\<exists>r q v. waiting_rider (dispatcher w) = r # q
        \<and> request_rider driver w
            = (register_driver driver (set_driver driver v (set_waiting q w)), Inr (Some r)))"
  by (cases "waiting_rider (dispatcher w)") (auto simp: request_rider_def Let_def)

lemma RiderRequest_do_decreases:
  assumes "RiderRequest_do t rider w = (w', Inr evs)"
  shows "sum_list (map weight evs) + 3 * length (waiting_rider (dispatcher w'))
           < 5 + 3 * length (waiting_rider (dispatcher w))"
  using request_driver_result [of rider "notify t RIDER REQUEST (rider_id (rider_heap w rider))
                 (Some (origin (rider_heap w rider))) w"] assms
  by (auto simp: RiderRequest_do_def Let_def start_drive_def split: sum.splits)

lemma DriverRequest_do_decreases:
  assumes "DriverRequest_do t driver w = (w', Inr evs)"
  shows "sum_list (map weight evs) + 3 * length (waiting_rider (dispatcher w'))
           < 1 + 3 * length (waiting_rider (dispatcher w))"
  using request_rider_result [of driver "notify t DRIVER REQUEST
          (driver_id (driver_heap w driver)) (location (driver_heap w driver)) w"] assms
  by (auto simp: DriverRequest_do_def Let_def start_drive_def split: sum.splits)

lemma Cancellation_do_decreases:
  assumes "Cancellation_do t rider w = (w', Inr evs)"
  shows "sum_list (map weight evs) + 3 * length (waiting_rider (dispatcher w'))
           < 1 + 3 * length (waiting_rider (dispatcher w))"
proof (cases "status (rider_heap w rider) = WAITING")
  case False
  with assms show ?thesis by (simp add: Cancellation_do_def)
next
  case True
  let ?w = "notify t RIDER CANCEL (rider_id (rider_heap w rider))
              (Some (origin (rider_heap w rider)))
              (set_rider rider ((rider_heap w rider)\<lparr>status := CANCELLED\<rparr>) w)"
  from cancel_ride_ok [of rider ?w] obtain q' where
    q': "cancel_ride rider ?w = (set_waiting q' ?w, Inr ())"
    "length q' \<le> length (waiting_rider (dispatcher ?w))" by blast
  from assms True q' show ?thesis
    by (auto simp: Cancellation_do_def Let_def)
qed

lemma Pickup_do_decreases:
  assumes "Pickup_do t rider driver w = (w', Inr evs)"
  shows "sum_list (map weight evs) + 3 * length (waiting_rider (dispatcher w'))
           < 3 + 3 * length (waiting_rider (dispatcher w))"
  using assms
  by (auto simp: Pickup_do_def Let_def start_ride_def split: if_splits sum.splits)

lemma Dropoff_do_decreases:
  assumes "Dropoff_do t rider driver w = (w', Inr evs)"
  shows "sum_list (map weight evs) + 3 * length (waiting_rider (dispatcher w'))
           < 2 + 3 * length (waiting_rider (dispatcher w))"
proof -
  let ?w = "notify t DRIVER DROPOFF (driver_id (end_ride (driver_heap w driver)))
              (location (end_ride (driver_heap w driver)))
              (notify t RIDER DROPOFF (rider_id (rider_heap w rider))
                 (Some (origin (rider_heap w rider)))
                 (set_driver driver (end_ride (driver_heap w driver)) w))"
  from cancel_ride_ok [of rider ?w] obtain q' where
    q': "cancel_ride rider ?w = (set_waiting q' ?w, Inr ())"
    "length q' \<le> length (waiting_rider (dispatcher ?w))" by blast
  from assms q' show ?thesis
    by (auto simp: Dropoff_do_def Let_def)
qed

lemma do_decreases:
  assumes "do e w = (w', Inr evs)"
  shows "sum_list (map weight evs) + 3 * length (waiting_rider (dispatcher w'))
           < weight e + 3 * length (waiting_rider (dispatcher w))"
  using assms
  by (cases e)
     (auto dest: RiderRequest_do_decreases DriverRequest_do_decreases
        Cancellation_do_decreases Pickup_do_decreases Dropoff_do_decreases)

lemma run_loop_terminates: "\<exists>r. run_loop pick q w = Some r"
proof (induction "potential q w" arbitrary: q w rule: less_induct)
  case less
  show ?case
  proof (cases "q = []")
    case True
    then show ?thesis by (simp add: run_loop.simps)
  next
    case False
    obtain e q' where rm: "pq_remove pick q = (e, q')" by (cases "pq_remove pick q")
    obtain w' res where ex: "do e w = (w', res)" by (cases "do e w")
    show ?thesis
    proof (cases res)
      case (Inl err)
      with False rm ex show ?thesis by (simp add: run_loop.simps [of pick q w])
    next
      case (Inr evs)
      from do_decreases [OF ex [unfolded Inr]] pq_remove_weight [OF False rm]
      have "potential (add_all evs q') w' < potential q w"
        by (simp add: potential_def add_all_weight)
      from less [OF this] obtain r where "run_loop pick (add_all evs q') w' = Some r"
        by blast
      with False rm ex Inr show ?thesis by (simp add: run_loop.simps [of pick q w])
    qed
  qed
qed

text \<open>
  For every list of initial events, from every state and whatever event the queue
  serves first, the loop of \<^verbatim>\<open>Simulation.run\<close> ends: either an event raises and the
  exception ends the run, or the queue empties and the monitor's report is returned.
  \<^verbatim>\<open>run([])\<close> returns the report at once and leaves the state as it was.
\<close>

theorem run_terminates:
  "(\<exists>w' r. run pick report initial_events w = Some (w', r)
      \<and> ((\<exists>e. r = Inl e) \<or> r = Inr (report (monitor w'))))
   \<and> run pick report [] w = Some (w, Inr (report (monitor w)))"
proof -
  obtain w' r where "run_loop pick (add_all initial_events []) w = Some (w', r)"
    using run_loop_terminates [of pick "add_all initial_events []" w] by auto
  then have a: "\<exists>w' r. run pick report initial_events w = Some (w', r)
      \<and> ((\<exists>e. r = Inl e) \<or> r = Inr (report (monitor w')))"
    by (cases r) (simp_all add: run_def)
  have b: "run pick report [] w = Some (w, Inr (report (monitor w)))"
    by (simp add: run_def run_loop.simps)
  from a b show ?thesis by blast
qed

text \<open>
  C9. The spec has the queue of \<^verbatim>\<open>run\<close> empty for every finite list of initial events
  with positive patience and speed. The code does not do that on this list, in which
  one driver requests a rider at time 1 and again at time 4: \<^verbatim>\<open>request_rider\<close> does
  not look at \<^verbatim>\<open>is_idle\<close>, as \<^verbatim>\<open>request_driver\<close> does, so the second request books
  the driver, on its way to the first rider, for the second rider, whom it picks up
  and drops off. The Pickup of the first rider, who has cancelled meanwhile, then
  calls \<^verbatim>\<open>end_drive\<close> on a driver without destination, against the precondition in its
  docstring, and leaves it without location; the third rider's request raises
  AttributeError in \<^verbatim>\<open>get_travel_time\<close>, and \<^verbatim>\<open>run\<close> ends by that exception while a
  Cancellation is still pending. No two pending events have the same timestamp in
  this run, so the order in which the queue serves ties plays no part.
\<close>

theorem run_raises_when_driver_rebooked:
  "0 < speed (driver_heap shared_driver_world 0)
   \<and> 0 < patience (rider_heap shared_driver_world 0)
   \<and> 0 < patience (rider_heap shared_driver_world 1)
   \<and> 0 < patience (rider_heap shared_driver_world 2)
   \<and> map_option snd (run earliest length shared_driver_events shared_driver_world)
       = Some (Inl AttributeError)"
  by (simp add: run_def run_loop.simps shared_driver_events_def shared_driver_world_def
      Simulation_init_def Dispatcher_init_def pq_add_def pq_remove_def Let_def
      RiderRequest_do_def DriverRequest_do_def Cancellation_do_def Pickup_do_def Dropoff_do_def
      request_driver_def request_rider_def register_driver_def cancel_ride_def
      cancel_loop.simps start_drive_def end_drive_def start_ride_def end_ride_def
      get_travel_time_def eval_travel Driver_init_def Rider_init_def
      notify_def set_driver_def set_rider_def set_waiting_def set_drivers_def)

end
